theory Spec2Isabelle
  imports Main "HOL-Library.Monad_Syntax" "HOL-Library.Sublist"
begin

section \<open>JavaScript values and the built-in operations the program uses\<close>

text \<open>
  The detector receives the fetched transaction as an object graph and reads it with
  property accesses, optional chaining and method calls; its instruction parameter is
  typed \<open>any[]\<close>. The values are therefore modelled dynamically. \<open>JPublicKey s\<close> is the
  library's public-key object, whose \<open>toString()\<close> yields the base-58 text \<open>s\<close>. \<open>JNum n\<close>
  is the Number with integral value \<open>n\<close>. Strings are lists of code units; the texts the
  program handles (log lines, base-58 addresses) are ASCII.

  A computation that may raise has an \<open>option\<close> result: \<open>None\<close> is a raised \<open>TypeError\<close>,
  the only exception the detector's own code can raise.
\<close>

datatype jsval =
    JUndefined
  | JNull
  | JBool bool
  | JNum int
  | JNaN
  | JStr string
  | JPublicKey string
  | JArr "jsval list"
  | JObj "(string \<times> jsval) list"

text \<open>
  Two built-ins are taken as parameters, since nothing in the program depends on how they
  compute: the decimal rendering of a Number and the global \<open>parseInt\<close> (\<open>None\<close> is NaN).
\<close>

record host =
  numberToString :: "int \<Rightarrow> string"
  parseInt :: "string \<Rightarrow> int option"

record config =
  pumpFunProgramId :: string
  pumpFunAmmProgramId :: string

text \<open>Truthiness, as used by \<open>!x\<close>, \<open>x || y\<close> and \<open>if (x)\<close>.\<close>

definition truthy :: "jsval \<Rightarrow> bool" where
  "truthy v = (case v of
       JUndefined \<Rightarrow> False
     | JNull \<Rightarrow> False
     | JBool b \<Rightarrow> b
     | JNum n \<Rightarrow> n \<noteq> 0
     | JNaN \<Rightarrow> False
     | JStr s \<Rightarrow> s \<noteq> []
     | _ \<Rightarrow> True)"

text \<open>
  \<open>v.k\<close> for the data fields the program reads (\<open>meta\<close>, \<open>err\<close>, \<open>transaction\<close>, \<open>message\<close>,
  \<open>instructions\<close>, \<open>logMessages\<close>, \<open>accountKeys\<close>, \<open>pubkey\<close>, \<open>programId\<close>, \<open>program\<close>, \<open>data\<close>,
  \<open>parsed\<close>, \<open>type\<close>, \<open>info\<close>, \<open>mint\<close>, \<open>tokenMint\<close>, \<open>accounts\<close>): reading a property of
  \<open>undefined\<close> or \<open>null\<close> raises; none of these names is a property of a string, number,
  boolean, array or public key, so there the read gives \<open>undefined\<close>.
\<close>

definition getProp :: "jsval \<Rightarrow> string \<Rightarrow> jsval option" where
  "getProp v k = (case v of
       JUndefined \<Rightarrow> None
     | JNull \<Rightarrow> None
     | JObj kvs \<Rightarrow> Some (case map_of kvs k of None \<Rightarrow> JUndefined | Some x \<Rightarrow> x)
     | _ \<Rightarrow> Some JUndefined)"

text \<open>\<open>v?.k\<close>\<close>

definition optProp :: "jsval \<Rightarrow> string \<Rightarrow> jsval option" where
  "optProp v k = (case v of
       JUndefined \<Rightarrow> Some JUndefined
     | JNull \<Rightarrow> Some JUndefined
     | _ \<Rightarrow> getProp v k)"

text \<open>\<open>'accounts' in v\<close>: raises on a primitive.\<close>

definition inOp :: "string \<Rightarrow> jsval \<Rightarrow> bool option" where
  "inOp k v = (case v of
       JObj kvs \<Rightarrow> Some (k \<in> fst ` set kvs)
     | JArr xs \<Rightarrow> Some False
     | JPublicKey s \<Rightarrow> Some False
     | _ \<Rightarrow> None)"

definition isArray :: "jsval \<Rightarrow> bool" where
  "isArray v = (case v of JArr xs \<Rightarrow> True | _ \<Rightarrow> False)"

text \<open>\<open>String.prototype.includes\<close>, \<open>endsWith\<close> and \<open>toLowerCase\<close>.\<close>

fun includesStr :: "string \<Rightarrow> string \<Rightarrow> bool" where
  "includesStr [] n = (n = [])"
| "includesStr (c # cs) n = (prefix n (c # cs) \<or> includesStr cs n)"

definition endsWith :: "string \<Rightarrow> string \<Rightarrow> bool" where
  "endsWith s t = suffix t s"

definition lowerChar :: "char \<Rightarrow> char" where
  "lowerChar c = (let n = (of_char c :: nat) in
                  if 65 \<le> n \<and> n \<le> 90 then char_of (n + 32) else c)"

definition toLowerCase :: "string \<Rightarrow> string" where
  "toLowerCase s = map lowerChar s"

text \<open>
  \<open>v.includes(needle)\<close> with a string needle: substring search on a string, membership
  on an array; every other value has no such method, and calling it raises.
\<close>

definition includesM :: "jsval \<Rightarrow> string \<Rightarrow> bool option" where
  "includesM v needle = (case v of
       JStr s \<Rightarrow> Some (includesStr s needle)
     | JArr xs \<Rightarrow> Some (JStr needle \<in> set xs)
     | _ \<Rightarrow> None)"

text \<open>
  \<open>Array.prototype.some\<close> with a callback that may raise: it stops at the first element
  for which the callback is true.
\<close>

fun someM :: "('a \<Rightarrow> bool option) \<Rightarrow> 'a list \<Rightarrow> bool option" where
  "someM f [] = Some False"
| "someM f (x # xs) = do { b \<leftarrow> f x; if b then Some True else someM f xs }"

definition arraySome :: "jsval \<Rightarrow> (jsval \<Rightarrow> bool option) \<Rightarrow> bool option" where
  "arraySome v f = (case v of JArr xs \<Rightarrow> someM f xs | _ \<Rightarrow> None)"

fun mapM :: "('a \<Rightarrow> 'b option) \<Rightarrow> 'a list \<Rightarrow> 'b list option" where
  "mapM f [] = Some []"
| "mapM f (x # xs) = do { y \<leftarrow> f x; ys \<leftarrow> mapM f xs; Some (y # ys) }"

definition arrayMap :: "jsval \<Rightarrow> (jsval \<Rightarrow> jsval option) \<Rightarrow> jsval list option" where
  "arrayMap v f = (case v of JArr xs \<Rightarrow> mapM f xs | _ \<Rightarrow> None)"

text \<open>\<open>for (const x of v)\<close>: arrays and strings are iterable, nothing else in this universe.\<close>

definition iterate :: "jsval \<Rightarrow> jsval list option" where
  "iterate v = (case v of
       JArr xs \<Rightarrow> Some xs
     | JStr s \<Rightarrow> Some (map (\<lambda>c. JStr [c]) s)
     | _ \<Rightarrow> None)"

text \<open>
  \<open>v.toString()\<close> and \<open>xs.join(sep)\<close>. An array prints as its elements joined by commas,
  \<open>undefined\<close> and \<open>null\<close> elements as the empty string; a plain object prints as
  \<open>[object Object]\<close> unless it carries a \<open>toString\<close> entry of its own, which in this
  universe is not callable.
\<close>

fun toStringM :: "host \<Rightarrow> jsval \<Rightarrow> string option"
and joinM :: "host \<Rightarrow> string \<Rightarrow> jsval list \<Rightarrow> string option" where
  "toStringM h JUndefined = None"
| "toStringM h JNull = None"
| "toStringM h (JBool b) = Some (if b then ''true'' else ''false'')"
| "toStringM h (JNum n) = Some (numberToString h n)"
| "toStringM h JNaN = Some ''NaN''"
| "toStringM h (JStr s) = Some s"
| "toStringM h (JPublicKey s) = Some s"
| "toStringM h (JArr xs) = joinM h '','' xs"
| "toStringM h (JObj kvs) =
     (if ''toString'' \<in> fst ` set kvs then None else Some ''[object Object]'')"
| "joinM h sep [] = Some []"
| "joinM h sep (x # xs) = do {
     a \<leftarrow> (case x of JUndefined \<Rightarrow> Some [] | JNull \<Rightarrow> Some [] | _ \<Rightarrow> toStringM h x);
     if xs = [] then Some a else do { b \<leftarrow> joinM h sep xs; Some (a @ sep @ b) } }"

section \<open>The migration detector\<close>

record detection =
  isMigration :: bool
  tokenMint :: jsval
  signature :: "string option"

definition notMigration :: detection where
  "notMigration = \<lparr>isMigration = False, tokenMint = JUndefined, signature = None\<rparr>"

text \<open>The constant \<open>hasMigrateLog\<close> of \<open>hasMigrateInstruction\<close>.\<close>

definition hasMigrateLog :: "jsval \<Rightarrow> bool option" where
  "hasMigrateLog logMessages =
     arraySome logMessages (\<lambda>log. includesM log ''Instruction: Migrate'')"

text \<open>The callback of \<open>instructions.some\<close> in \<open>hasMigrateInstruction\<close>.\<close>

definition isMigrateIx :: "config \<Rightarrow> jsval \<Rightarrow> bool option" where
  "isMigrateIx cfg ix = do {
     pid \<leftarrow> getProp ix ''programId'';
     programId \<leftarrow> (if truthy pid then Some pid else getProp ix ''program'');
     if programId \<noteq> JStr (pumpFunProgramId cfg) then Some False
     else do {
       d \<leftarrow> getProp ix ''data'';
       inData \<leftarrow> (case d of JUndefined \<Rightarrow> Some False | JNull \<Rightarrow> Some False
                  | _ \<Rightarrow> includesM d ''migrate'');
       if inData then Some True
       else do {
         parsed \<leftarrow> getProp ix ''parsed'';
         ty \<leftarrow> optProp parsed ''type'';
         Some (ty = JStr ''migrate'')
       }
     }
   }"

definition hasMigrateInstruction :: "config \<Rightarrow> jsval \<Rightarrow> jsval \<Rightarrow> bool option" where
  "hasMigrateInstruction cfg instructions logMessages = do {
     hasLog \<leftarrow> hasMigrateLog logMessages;
     if hasLog then Some True else arraySome instructions (isMigrateIx cfg)
   }"

text \<open>The constant \<open>hasCollectFee\<close> of \<open>detectMigrationFromTransaction\<close>.\<close>

definition isExclusionLog :: "jsval \<Rightarrow> bool option" where
  "isExclusionLog log = do {
     a \<leftarrow> includesM log ''Instruction: CollectCreatorFee'';
     if a then Some True
     else do {
       b \<leftarrow> includesM log ''Instruction: MigrateBondingCurveCreator'';
       if b then Some True else includesM log ''Instruction: DistributeCreatorFees''
     }
   }"

definition hasCollectFee :: "jsval \<Rightarrow> bool option" where
  "hasCollectFee logMessages = arraySome logMessages isExclusionLog"

text \<open>
  The test \<open>typeof account === 'string' && account.endsWith('pump') && account.length === 44\<close>
  that \<open>extractTokenMint\<close> applies in its first loop and in its instruction loop.
\<close>

definition isPumpAddress :: "jsval \<Rightarrow> bool" where
  "isPumpAddress account =
     (case account of JStr s \<Rightarrow> endsWith s ''pump'' \<and> length s = 44 | _ \<Rightarrow> False)"

text \<open>The test of the fallback loop of \<open>extractTokenMint\<close>.\<close>

definition knownPrograms :: "config \<Rightarrow> string list" where
  "knownPrograms cfg =
     [''11111111111111111111111111111111'',
      ''TokenkegQfeZyiNwAJbNbGKPFXCWuBvf9Ss623VQ5DA'',
      ''TokenzQdBNbLqP5VEhdkAS6EPFLC1PHnBqCXEpPxuEb'',
      ''ATokenGPvbdGVxr1b2hvZbsiqW5xWH25efTNsLJA8knL'',
      pumpFunProgramId cfg,
      pumpFunAmmProgramId cfg]"

definition isFallbackAddress :: "config \<Rightarrow> jsval \<Rightarrow> bool" where
  "isFallbackAddress cfg account =
     (case account of JStr s \<Rightarrow> length s = 44 \<and> s \<notin> set (knownPrograms cfg) | _ \<Rightarrow> False)"

text \<open>
  The callback of \<open>accountKeys.map\<close>:
  \<open>typeof key === 'string' ? key : key.pubkey?.toString() || key.toString()\<close>.
\<close>

definition accountKeyString :: "host \<Rightarrow> jsval \<Rightarrow> jsval option" where
  "accountKeyString h key = (case key of
       JStr s \<Rightarrow> Some key
     | _ \<Rightarrow> do {
         pk \<leftarrow> getProp key ''pubkey'';
         a \<leftarrow> (case pk of JUndefined \<Rightarrow> Some JUndefined | JNull \<Rightarrow> Some JUndefined
               | _ \<Rightarrow> map_option JStr (toStringM h pk));
         if truthy a then Some a else map_option JStr (toStringM h key)
       })"

text \<open>
  The payload checks on one instruction: \<open>Some (Some v)\<close> when the loop returns \<open>v\<close>,
  \<open>Some None\<close> when it goes on.
\<close>

definition instructionMint :: "jsval \<Rightarrow> jsval option option" where
  "instructionMint ix = do {
     parsed \<leftarrow> getProp ix ''parsed'';
     ty \<leftarrow> optProp parsed ''type'';
     r \<leftarrow> (if ty = JStr ''transfer'' \<or> ty = JStr ''transferChecked'' then do {
             info \<leftarrow> optProp parsed ''info'';
             m \<leftarrow> optProp info ''mint'';
             mint \<leftarrow> (if truthy m then Some m else optProp info ''tokenMint'');
             Some (if truthy mint then Some mint else None)
           } else Some None);
     case r of
       Some v \<Rightarrow> Some (Some v)
     | None \<Rightarrow> do {
         info \<leftarrow> optProp parsed ''info'';
         m \<leftarrow> optProp info ''mint'';
         Some (if truthy m then Some m else None)
       }
   }"

text \<open>The loop over \<open>ix.accounts\<close>.\<close>

fun scanAccounts :: "host \<Rightarrow> jsval list \<Rightarrow> jsval list \<Rightarrow> jsval option option" where
  "scanAccounts h accountKeysArray [] = Some None"
| "scanAccounts h accountKeysArray (accountIndex # rest) = do {
     index \<leftarrow> (case accountIndex of
                 JNum n \<Rightarrow> Some (Some n)
               | JNaN \<Rightarrow> Some None
               | _ \<Rightarrow> map_option (parseInt h) (toStringM h accountIndex));
     case index of
       None \<Rightarrow> scanAccounts h accountKeysArray rest
     | Some n \<Rightarrow>
         if 0 \<le> n \<and> n < int (length accountKeysArray)
            \<and> isPumpAddress (accountKeysArray ! nat n)
         then Some (Some (accountKeysArray ! nat n))
         else scanAccounts h accountKeysArray rest
   }"

text \<open>The loop over the instructions.\<close>

fun scanInstructions :: "host \<Rightarrow> jsval list \<Rightarrow> jsval list \<Rightarrow> jsval option option" where
  "scanInstructions h accountKeysArray [] = Some None"
| "scanInstructions h accountKeysArray (ix # rest) = do {
     r \<leftarrow> instructionMint ix;
     case r of
       Some v \<Rightarrow> Some (Some v)
     | None \<Rightarrow> do {
         hasAccounts \<leftarrow> inOp ''accounts'' ix;
         accounts \<leftarrow> (if hasAccounts then getProp ix ''accounts'' else Some JUndefined);
         r' \<leftarrow> (case accounts of
                  JArr accs \<Rightarrow> scanAccounts h accountKeysArray accs
                | _ \<Rightarrow> Some None);
         case r' of
           Some v \<Rightarrow> Some (Some v)
         | None \<Rightarrow> scanInstructions h accountKeysArray rest
       }
   }"

definition extractTokenMint :: "host \<Rightarrow> config \<Rightarrow> jsval \<Rightarrow> jsval \<Rightarrow> jsval option" where
  "extractTokenMint h cfg tx instructions = do {
     message \<leftarrow> optProp tx ''message'';
     ak \<leftarrow> optProp message ''accountKeys'';
     accountKeysArray \<leftarrow> arrayMap (if truthy ak then ak else JArr []) (accountKeyString h);
     case find isPumpAddress accountKeysArray of
       Some account \<Rightarrow> Some account
     | None \<Rightarrow> do {
         ixs \<leftarrow> iterate instructions;
         r \<leftarrow> scanInstructions h accountKeysArray ixs;
         case r of
           Some v \<Rightarrow> Some v
         | None \<Rightarrow>
            (case find (isFallbackAddress cfg) accountKeysArray of
               Some account \<Rightarrow> Some account
             | None \<Rightarrow> Some JUndefined)
       }
   }"

definition detectMigrationFromTransaction ::
  "host \<Rightarrow> config \<Rightarrow> jsval \<Rightarrow> string \<Rightarrow> detection option" where
  "detectMigrationFromTransaction h cfg tx sig =
     (if \<not> truthy tx then Some notMigration
      else do {
        meta \<leftarrow> getProp tx ''meta'';
        if \<not> truthy meta then Some notMigration
        else do {
          err \<leftarrow> getProp meta ''err'';
          if truthy err then Some notMigration
          else do {
            transaction \<leftarrow> getProp tx ''transaction'';
            message \<leftarrow> getProp transaction ''message'';
            ins \<leftarrow> getProp message ''instructions'';
            let instructions = (if truthy ins then ins else JArr []);
            lm \<leftarrow> getProp meta ''logMessages'';
            let logMessages = (if truthy lm then lm else JArr []);
            hasMigrate \<leftarrow> hasMigrateInstruction cfg instructions logMessages;
            hasFee \<leftarrow> hasCollectFee logMessages;
            if \<not> (hasMigrate \<and> \<not> hasFee) then Some notMigration
            else do {
              mint \<leftarrow> extractTokenMint h cfg transaction instructions;
              Some \<lparr>isMigration = True, tokenMint = mint, signature = Some sig\<rparr>
            }
          }
        }
      })"

section \<open>The orchestrator\<close>

text \<open>The pre-filter \<open>hasMigrationIndicators\<close>.\<close>

definition hasMigrationIndicators :: "host \<Rightarrow> jsval \<Rightarrow> bool option" where
  "hasMigrationIndicators h logs =
     (if \<not> truthy logs \<or> \<not> isArray logs then Some False
      else do {
        joined \<leftarrow> (case logs of JArr xs \<Rightarrow> joinM h '' '' xs | _ \<Rightarrow> None);
        let logText = toLowerCase joined;
        Some (includesStr logText ''migrate'' \<or>
              includesStr logText ''migration'' \<or>
              (includesStr logText ''burn'' \<and> includesStr logText ''lp'') \<or>
              includesStr logText ''pump.fun: migration'')
      })"

text \<open>
  The state of \<open>main\<close>: the set of processed signatures (the Dedup Ledger; a JavaScript
  \<open>Set\<close> keeps insertion order, so it is a list without duplicates), the queue of pending
  fetches, the rate-limiting bookkeeping, and the retry timers that the \<open>catch\<close> block has
  set and that have not fired yet (signature and delay in milliseconds). Three traces
  record what the run did: the calls of \<open>getParsedTransaction\<close>, the calls of the
  detector, and the alerts sent.
\<close>

record orchestrator =
  processedSignatures :: "string list"
  pendingFetches :: "(string \<times> int) list"
  lastFetchTime :: int
  isProcessingQueue :: bool
  retryTimers :: "(string \<times> nat) list"
  fetched :: "string list"
  classified :: "string list"
  alerted :: "string list"

definition initialOrchestrator :: orchestrator where
  "initialOrchestrator =
     \<lparr>processedSignatures = [], pendingFetches = [], lastFetchTime = 0,
      isProcessingQueue = False, retryTimers = [], fetched = [], classified = [],
      alerted = []\<rparr>"

text \<open>\<open>Set.prototype.add\<close> and \<open>delete\<close> on the insertion-ordered set.\<close>

definition setAdd :: "string \<Rightarrow> string list \<Rightarrow> string list" where
  "setAdd x xs = (if x \<in> set xs then xs else xs @ [x])"

definition setDelete :: "string \<Rightarrow> string list \<Rightarrow> string list" where
  "setDelete x xs = removeAll x xs"

text \<open>
  Ledger maintenance, the last statement of the \<open>try\<close> block of
  \<open>fetchAndProcessTransaction\<close>: beyond 1000 entries, the entries before the last 1000 of
  \<open>Array.from(processedSignatures)\<close> are deleted one by one.
\<close>

definition cleanupProcessed :: "string list \<Rightarrow> string list" where
  "cleanupProcessed sigs =
     (if length sigs > 1000
      then fold setDelete (take (length sigs - 1000) sigs) sigs
      else sigs)"

text \<open>
  What the collaborators answer during one call of \<open>fetchAndProcessTransaction\<close>. A call
  either throws an error, of which the \<open>catch\<close> block reads the optional \<open>message\<close>, or
  returns. \<open>getParsedTransaction\<close> returns the transaction (\<open>null\<close> when it was not found);
  the parser returns \<open>null\<close> or a migration with its token mint; the token-data fetcher
  returns data or \<open>null\<close>. \<open>typeErrorMessage\<close> is the message of the \<open>TypeError\<close> when the
  code of the call itself raises one.
\<close>

datatype 'a outcome = Throws "string option" | Returns 'a

record responses =
  getParsedTransaction :: "jsval outcome"
  typeErrorMessage :: "string option"
  parseMigrationTransactionFromParsed :: "jsval option outcome"
  fetchTokenData :: "bool outcome"
  sendMigrationAlert :: "unit outcome"

text \<open>
  The \<open>catch\<close> block: a message containing \<open>429\<close> or \<open>Too Many Requests\<close> sets a timer of
  2000 ms for the signature; any other error is only logged.
\<close>

definition isRateLimit :: "string option \<Rightarrow> bool" where
  "isRateLimit m = (case m of
       None \<Rightarrow> False
     | Some text \<Rightarrow> includesStr text ''429'' \<or> includesStr text ''Too Many Requests'')"

definition catchBlock :: "string option \<Rightarrow> string \<Rightarrow> orchestrator \<Rightarrow> orchestrator" where
  "catchBlock m sig s =
     (if isRateLimit m then s\<lparr>retryTimers := retryTimers s @ [(sig, 2000)]\<rparr> else s)"

text \<open>
  The console output after a detection reads \<open>tx.transaction.message.instructions.length\<close>
  without guard: it raises when the record has no instruction list. The log lines are
  read under guards, and printing them converts each line to a string, which does not
  raise on the string entries that the declared type \<open>string[]\<close> gives.
\<close>

definition displayLogs :: "jsval \<Rightarrow> unit option" where
  "displayLogs tx = do {
     transaction \<leftarrow> getProp tx ''transaction'';
     message \<leftarrow> getProp transaction ''message'';
     instructions \<leftarrow> getProp message ''instructions'';
     case instructions of JUndefined \<Rightarrow> None | JNull \<Rightarrow> None | _ \<Rightarrow> Some ()
   }"

definition sendAlert :: "responses \<Rightarrow> string \<Rightarrow> orchestrator \<Rightarrow> orchestrator outcome" where
  "sendAlert env sig s = (case sendMigrationAlert env of
       Throws m \<Rightarrow> Throws m
     | Returns u \<Rightarrow> Returns (s\<lparr>alerted := alerted s @ [sig]\<rparr>))"

definition fetchAndProcessTransaction ::
  "host \<Rightarrow> config \<Rightarrow> responses \<Rightarrow> string \<Rightarrow> orchestrator \<Rightarrow> orchestrator" where
  "fetchAndProcessTransaction h cfg env sig s =
     (if sig \<in> set (processedSignatures s) then s
      else
        let s1 = s\<lparr>fetched := fetched s @ [sig]\<rparr> in
        case getParsedTransaction env of
          Throws m \<Rightarrow> catchBlock m sig s1
        | Returns tx \<Rightarrow>
            if \<not> truthy tx then s1
            else
              let s2 = s1\<lparr>classified := classified s1 @ [sig]\<rparr> in
              case detectMigrationFromTransaction h cfg tx sig of
                None \<Rightarrow> catchBlock (typeErrorMessage env) sig s2
              | Some detection \<Rightarrow>
                  if \<not> isMigration detection then s2
                  else
                    let s3 = s2\<lparr>processedSignatures := setAdd sig (processedSignatures s2)\<rparr> in
                    case displayLogs tx of
                      None \<Rightarrow> catchBlock (typeErrorMessage env) sig s3
                    | Some u \<Rightarrow>
                       (case parseMigrationTransactionFromParsed env of
                          Throws m \<Rightarrow> catchBlock m sig s3
                        | Returns None \<Rightarrow> s3
                        | Returns (Some mint) \<Rightarrow>
                            if \<not> truthy mint then s3
                            else
                              case fetchTokenData env of
                                Throws m \<Rightarrow> catchBlock m sig s3
                              | Returns False \<Rightarrow>
                                  (case sendAlert env sig s3 of
                                     Throws m \<Rightarrow> catchBlock m sig s3
                                   | Returns s4 \<Rightarrow> s4)
                              | Returns True \<Rightarrow>
                                  (case sendAlert env sig s3 of
                                     Throws m \<Rightarrow> catchBlock m sig s3
                                   | Returns s4 \<Rightarrow>
                                       s4\<lparr>processedSignatures :=
                                            cleanupProcessed (processedSignatures s4)\<rparr>)))"

text \<open>
  \<open>processFetchQueue\<close>. Its entry does nothing while a drain is running or the queue is
  empty. One pass of its loop takes the time \<open>now\<close> read at the top of the pass and the
  time \<open>now'\<close> read after the rate-limiting wait; it leaves the loop on an empty queue,
  drops an item older than 30 seconds, and otherwise fetches and processes the item.
\<close>

definition processFetchQueue :: "orchestrator \<Rightarrow> orchestrator" where
  "processFetchQueue s =
     (if isProcessingQueue s \<or> pendingFetches s = [] then s
      else s\<lparr>isProcessingQueue := True\<rparr>)"

definition queuePass ::
  "host \<Rightarrow> config \<Rightarrow> int \<Rightarrow> int \<Rightarrow> responses \<Rightarrow> orchestrator \<Rightarrow> orchestrator" where
  "queuePass h cfg now now' env s = (case pendingFetches s of
       [] \<Rightarrow> s\<lparr>isProcessingQueue := False\<rparr>
     | item # rest \<Rightarrow>
         if now - snd item > 30000 then s\<lparr>pendingFetches := rest\<rparr>
         else fetchAndProcessTransaction h cfg env (fst item)
                (s\<lparr>pendingFetches := rest, lastFetchTime := now'\<rparr>))"

text \<open>
  The callback of a retry timer, firing at time \<open>now\<close>: the signature goes to the back of
  the queue unless the ledger holds it.
\<close>

definition retryTimerFires :: "string \<Rightarrow> int \<Rightarrow> orchestrator \<Rightarrow> orchestrator" where
  "retryTimerFires sig now s =
     (let s1 = s\<lparr>retryTimers := remove1 (sig, 2000) (retryTimers s)\<rparr> in
      if sig \<notin> set (processedSignatures s1)
      then processFetchQueue (s1\<lparr>pendingFetches := pendingFetches s1 @ [(sig, now)]\<rparr>)
      else s1)"

text \<open>
  A message of the stream, as the interface \<open>HeliusWebSocketMessage\<close> declares it and as
  the callback reads it: the \<open>method\<close> field, the signature and logs under \<open>params.result.value\<close>,
  the signature and logs directly under \<open>params.result\<close> (read through the \<open>any\<close> cast),
  and, for a full transaction notification, the list
  \<open>params.result.transaction.transaction.signatures\<close> (the outer \<open>None\<close>: no
  \<open>params.result.transaction\<close>). For a log notification the callback takes the first
  non-empty signature of \<open>result.value\<close> and \<open>result\<close>; its third alternative reads the
  same two places again and finds a signature in neither.
\<close>

record stream_message =
  messageMethod :: "string option"
  valueSignature :: "string option"
  valueLogs :: "string list option"
  resultSignature :: "string option"
  resultLogs :: "string list option"
  transactionSignatures :: "string list option option"

text \<open>The signature and the logs that the callback takes from a message.\<close>

definition messageSignature :: "stream_message \<Rightarrow> (string \<times> string list) option" where
  "messageSignature msg =
     (if messageMethod msg = Some ''logsNotification'' then
        (case valueSignature msg of
           Some (c # cs) \<Rightarrow> Some (c # cs, case valueLogs msg of None \<Rightarrow> [] | Some ls \<Rightarrow> ls)
         | _ \<Rightarrow>
           (case resultSignature msg of
              Some (c # cs) \<Rightarrow> Some (c # cs, case resultLogs msg of None \<Rightarrow> [] | Some ls \<Rightarrow> ls)
            | _ \<Rightarrow> None))
      else
        (case transactionSignatures msg of
           Some (Some ((c # cs) # others)) \<Rightarrow> Some (c # cs, [])
         | _ \<Rightarrow> None))"

text \<open>The callback given to the WebSocket client, called at time \<open>now\<close>.\<close>

definition onTransaction ::
  "host \<Rightarrow> int \<Rightarrow> stream_message \<Rightarrow> orchestrator \<Rightarrow> orchestrator" where
  "onTransaction h now msg s = (case messageSignature msg of
       None \<Rightarrow> s
     | Some (sig, logs) \<Rightarrow>
         if logs \<noteq> [] \<and> hasMigrationIndicators h (JArr (map JStr logs)) \<noteq> Some True then s
         else processFetchQueue (s\<lparr>pendingFetches := pendingFetches s @ [(sig, now)]\<rparr>))"

section \<open>The WebSocket client\<close>

text \<open>
  The fields of \<open>HeliusWebSocketClient\<close> that its reconnection logic reads and writes.
  \<open>reconnectInterval\<close> is the pending reconnect timer with its delay in milliseconds;
  \<open>connectCalls\<close> counts the calls of \<open>connect\<close>.
\<close>

datatype socket = NoSocket | Connecting | Open | Closed

record ws_client =
  ws :: socket
  reconnectInterval :: "nat option"
  pingInterval :: bool
  subscriptionId :: "int option"
  reconnectAttempts :: nat
  maxReconnectAttempts :: nat
  isReconnecting :: bool
  connectCalls :: nat

definition newClient :: ws_client where
  "newClient =
     \<lparr>ws = NoSocket, reconnectInterval = None, pingInterval = False, subscriptionId = None,
      reconnectAttempts = 0, maxReconnectAttempts = 10, isReconnecting = False,
      connectCalls = 0\<rparr>"

definition connect :: "ws_client \<Rightarrow> ws_client" where
  "connect c = c\<lparr>ws := Connecting, connectCalls := connectCalls c + 1\<rparr>"

definition onOpen :: "ws_client \<Rightarrow> ws_client" where
  "onOpen c = c\<lparr>ws := Open, reconnectAttempts := 0, pingInterval := True\<rparr>"

definition cleanup :: "ws_client \<Rightarrow> ws_client" where
  "cleanup c = c\<lparr>pingInterval := False, reconnectInterval := None, subscriptionId := None\<rparr>"

definition scheduleReconnect :: "ws_client \<Rightarrow> ws_client" where
  "scheduleReconnect c =
     (if isReconnecting c then c
      else if reconnectAttempts c \<ge> maxReconnectAttempts c then c
      else c\<lparr>isReconnecting := True, reconnectAttempts := reconnectAttempts c + 1,
             reconnectInterval := Some 1000\<rparr>)"

definition onClose :: "nat \<Rightarrow> ws_client \<Rightarrow> ws_client" where
  "onClose code c =
     (if code = 1008 \<or> code = 1003 then c\<lparr>ws := Closed\<rparr>
      else scheduleReconnect (cleanup (c\<lparr>ws := Closed\<rparr>)))"

text \<open>The callback of the reconnect timer; without a pending timer nothing fires.\<close>

definition reconnectTimerFires :: "ws_client \<Rightarrow> ws_client" where
  "reconnectTimerFires c = (case reconnectInterval c of
       None \<Rightarrow> c
     | Some delay \<Rightarrow> connect (c\<lparr>reconnectInterval := None, isReconnecting := False\<rparr>))"

text \<open>
  A run of consecutive connections. Each connection either opens (the \<open>open\<close> handler
  runs) or not, then closes with the given code; the reconnect timer, if the close has set
  one, fires before the next connection closes.
\<close>

fun connections :: "(bool \<times> nat) list \<Rightarrow> ws_client \<Rightarrow> ws_client" where
  "connections [] c = c"
| "connections ((opened, code) # rest) c =
     connections rest (reconnectTimerFires (onClose code (if opened then onOpen c else c)))"

section \<open>The shape of a fetched record\<close>

text \<open>
  The vocabulary in which the theorems about the detector are stated. \<open>field v k\<close> is the
  property read that never raises (\<open>undefined\<close> where \<open>v.k\<close> would raise), \<open>elements\<close> and
  \<open>strings\<close> are the entries of an array. A record is well-formed when it has the shape
  that the type \<open>ParsedTransactionWithMeta\<close> and the JSON of the RPC give it: an object
  with an object \<open>transaction.message\<close>, whose instruction list, account-key list and log
  lines may each be missing; an account key is a string, a public key, or an object with
  an optional \<open>pubkey\<close>; an instruction is an object whose \<open>data\<close>, if present, is a string
  or an array, and whose \<open>accounts\<close>, if an array, holds numbers, strings or public keys.
\<close>

definition field :: "jsval \<Rightarrow> string \<Rightarrow> jsval" where
  "field v k = (case getProp v k of Some x \<Rightarrow> x | None \<Rightarrow> JUndefined)"

definition isString :: "jsval \<Rightarrow> bool" where
  "isString v = (case v of JStr s \<Rightarrow> True | _ \<Rightarrow> False)"

text \<open>
  The declared parameter type of the detector is \<open>ParsedTransactionWithMeta\<close>, and its
  caller passes the result of \<open>getParsedTransaction\<close>: there the \<open>programId\<close> of every
  instruction, parsed or partially decoded, is a \<open>PublicKey\<close> object.
\<close>

definition isPublicKey :: "jsval \<Rightarrow> bool" where
  "isPublicKey v = (case v of JPublicKey s \<Rightarrow> True | _ \<Rightarrow> False)"

definition elements :: "jsval \<Rightarrow> jsval list" where
  "elements v = (case v of JArr xs \<Rightarrow> xs | _ \<Rightarrow> [])"

definition strings :: "jsval \<Rightarrow> string list" where
  "strings v = concat (map (\<lambda>x. case x of JStr s \<Rightarrow> [s] | _ \<Rightarrow> []) (elements v))"

definition wfArrayOf :: "(jsval \<Rightarrow> bool) \<Rightarrow> jsval \<Rightarrow> bool" where
  "wfArrayOf P v = (case v of JArr xs \<Rightarrow> list_all P xs | _ \<Rightarrow> \<not> truthy v)"

definition wfAccountKey :: "jsval \<Rightarrow> bool" where
  "wfAccountKey key = (case key of
       JStr s \<Rightarrow> True
     | JPublicKey s \<Rightarrow> True
     | JObj kvs \<Rightarrow> ''toString'' \<notin> fst ` set kvs \<and>
         (case field key ''pubkey'' of
            JUndefined \<Rightarrow> True | JNull \<Rightarrow> True | JStr s \<Rightarrow> True | JPublicKey s \<Rightarrow> True
          | _ \<Rightarrow> False)
     | _ \<Rightarrow> False)"

definition wfAccountIndex :: "jsval \<Rightarrow> bool" where
  "wfAccountIndex a = (case a of
       JNum n \<Rightarrow> True | JNaN \<Rightarrow> True | JStr s \<Rightarrow> True | JPublicKey s \<Rightarrow> True | _ \<Rightarrow> False)"

definition wfInstruction :: "jsval \<Rightarrow> bool" where
  "wfInstruction ix = (case ix of
       JObj kvs \<Rightarrow>
         (case field ix ''data'' of
            JUndefined \<Rightarrow> True | JNull \<Rightarrow> True | JStr s \<Rightarrow> True | JArr xs \<Rightarrow> True
          | _ \<Rightarrow> False) \<and>
         (case field ix ''accounts'' of
            JArr accs \<Rightarrow> list_all wfAccountIndex accs
          | _ \<Rightarrow> True)
     | _ \<Rightarrow> False)"

definition wfMeta :: "jsval \<Rightarrow> bool" where
  "wfMeta meta = (case meta of
       JObj kvs \<Rightarrow> wfArrayOf isString (field meta ''logMessages'')
     | _ \<Rightarrow> True)"

definition wfMessage :: "jsval \<Rightarrow> bool" where
  "wfMessage message = (case message of
       JObj kvs \<Rightarrow> wfArrayOf wfInstruction (field message ''instructions'')
                 \<and> wfArrayOf wfAccountKey (field message ''accountKeys'')
     | _ \<Rightarrow> False)"

definition wfTransactionRecord :: "jsval \<Rightarrow> bool" where
  "wfTransactionRecord tx = (case tx of
       JObj kvs \<Rightarrow> wfMeta (field tx ''meta'') \<and>
         (case field tx ''transaction'' of
            JObj tkvs \<Rightarrow> wfMessage (field (field tx ''transaction'') ''message'')
          | _ \<Rightarrow> False)
     | _ \<Rightarrow> False)"

text \<open>
  The log lines and the top-level instructions of a record, the test of the callback of
  \<open>instructions.some\<close> and the three exclusion markers as predicates, and the
  classification that the detector computes on a well-formed record.
\<close>

definition logLines :: "jsval \<Rightarrow> string list" where
  "logLines tx = strings (field (field tx ''meta'') ''logMessages'')"

definition topInstructions :: "jsval \<Rightarrow> jsval list" where
  "topInstructions tx =
     elements (field (field (field tx ''transaction'') ''message'') ''instructions'')"

definition isExclusionLine :: "string \<Rightarrow> bool" where
  "isExclusionLine l = (includesStr l ''Instruction: CollectCreatorFee''
      \<or> includesStr l ''Instruction: MigrateBondingCurveCreator''
      \<or> includesStr l ''Instruction: DistributeCreatorFees'')"

definition migrateInstruction :: "config \<Rightarrow> jsval \<Rightarrow> bool" where
  "migrateInstruction cfg ix =
     ((if truthy (field ix ''programId'') then field ix ''programId'' else field ix ''program'')
        = JStr (pumpFunProgramId cfg)
      \<and> ((case field ix ''data'' of
             JStr s \<Rightarrow> includesStr s ''migrate''
           | JArr xs \<Rightarrow> JStr ''migrate'' \<in> set xs
           | _ \<Rightarrow> False)
          \<or> field (field ix ''parsed'') ''type'' = JStr ''migrate''))"

definition classifiedMigration :: "config \<Rightarrow> jsval \<Rightarrow> bool" where
  "classifiedMigration cfg tx =
     (truthy (field tx ''meta'') \<and> \<not> truthy (field (field tx ''meta'') ''err'')
      \<and> ((\<exists>l\<in>set (logLines tx). includesStr l ''Instruction: Migrate'')
           \<or> (\<exists>ix\<in>set (topInstructions tx). migrateInstruction cfg ix))
      \<and> \<not> (\<exists>l\<in>set (logLines tx). isExclusionLine l))"

section \<open>The tiers of the mint extraction\<close>

text \<open>
  The account list that \<open>extractTokenMint\<close> searches (the texts of the account keys), and
  the tiers of its search as functions of their own: the address that an account index of
  an instruction reaches, the first vanity-suffix address so reached, and the value that
  the payload checks of the loop return for an instruction. \<open>statedPayloadMint\<close> is the
  payload tier as the specification words it: the mint or token-mint field of a decoded
  payload, whatever its type. \<open>mintByPriority\<close> composes the tiers in the order that the
  specification gives, the first match winning.
\<close>

definition accountKeyText :: "host \<Rightarrow> jsval \<Rightarrow> jsval" where
  "accountKeyText h key = (case accountKeyString h key of Some v \<Rightarrow> v | None \<Rightarrow> JUndefined)"

definition accountKeyTexts :: "host \<Rightarrow> jsval \<Rightarrow> jsval list" where
  "accountKeyTexts h transaction =
     map (accountKeyText h) (elements (field (field transaction ''message'') ''accountKeys''))"

fun firstMatch :: "('a \<Rightarrow> 'b option) \<Rightarrow> 'a list \<Rightarrow> 'b option" where
  "firstMatch f [] = None"
| "firstMatch f (x # xs) = (case f x of Some y \<Rightarrow> Some y | None \<Rightarrow> firstMatch f xs)"

definition reached :: "host \<Rightarrow> jsval list \<Rightarrow> jsval \<Rightarrow> jsval option" where
  "reached h keys accountIndex =
     (case (case accountIndex of
              JNum n \<Rightarrow> Some n
            | JNaN \<Rightarrow> None
            | _ \<Rightarrow> (case toStringM h accountIndex of Some s \<Rightarrow> parseInt h s | None \<Rightarrow> None)) of
        Some n \<Rightarrow> if 0 \<le> n \<and> n < int (length keys) then Some (keys ! nat n) else None
      | None \<Rightarrow> None)"

definition indexedPumpAddress :: "host \<Rightarrow> jsval list \<Rightarrow> jsval \<Rightarrow> jsval option" where
  "indexedPumpAddress h keys ix =
     find isPumpAddress (List.map_filter (reached h keys) (elements (field ix ''accounts'')))"

definition payloadMint :: "jsval \<Rightarrow> jsval option" where
  "payloadMint ix =
     (let parsed = field ix ''parsed''; ty = field parsed ''type''; info = field parsed ''info'' in
      if truthy (field info ''mint'') then Some (field info ''mint'')
      else if (ty = JStr ''transfer'' \<or> ty = JStr ''transferChecked'')
              \<and> truthy (field info ''tokenMint'')
      then Some (field info ''tokenMint'')
      else None)"

definition statedPayloadMint :: "jsval \<Rightarrow> jsval option" where
  "statedPayloadMint ix =
     (let info = field (field ix ''parsed'') ''info'' in
      if truthy (field info ''mint'') then Some (field info ''mint'')
      else if truthy (field info ''tokenMint'') then Some (field info ''tokenMint'')
      else None)"

definition mintByPriority ::
  "(jsval \<Rightarrow> jsval option) \<Rightarrow> host \<Rightarrow> config \<Rightarrow> jsval list \<Rightarrow> jsval list \<Rightarrow> jsval" where
  "mintByPriority payload h cfg keys ixs =
     (case find isPumpAddress keys of
        Some account \<Rightarrow> account
      | None \<Rightarrow>
         (case firstMatch (indexedPumpAddress h keys) ixs of
            Some account \<Rightarrow> account
          | None \<Rightarrow>
             (case firstMatch payload ixs of
                Some mint \<Rightarrow> mint
              | None \<Rightarrow>
                 (case find (isFallbackAddress cfg) keys of
                    Some account \<Rightarrow> account
                  | None \<Rightarrow> JUndefined))))"

section \<open>Example inputs\<close>

text \<open>
  Concrete inputs on which the theorems below are instantiated: a host (the examples
  never reach its two built-ins), the default configuration of \<open>loadConfig\<close>, two 44-character addresses ending in \<open>pump\<close>, a fetched
  record without error with given log lines, account keys and instructions (in
  \<open>exampleTransaction\<close> one vanity address and no instruction), three instructions (a
  partially decoded one of the watched program, its \<open>programId\<close> a \<open>PublicKey\<close>, with
  \<open>migrate\<close> in its data, a decoded \<open>mintTo\<close> with a token-mint field, one with an account
  index), the answers of
  collaborators that all succeed, a log notification without log lines, and 1001 distinct
  signatures.
\<close>

definition exampleHost :: host where
  "exampleHost = \<lparr>numberToString = (\<lambda>n. ''0''), parseInt = (\<lambda>s. None)\<rparr>"

definition exampleConfig :: config where
  "exampleConfig = \<lparr>pumpFunProgramId = ''6EF8rrecthR5Dkzon8Nwu78hRvfCKubJ14M5uBEwF6P'',
                     pumpFunAmmProgramId = ''675kPX9MHTjS2zt1qfr1NYHuzeLXfQM9H24wFSUt1Mp8''\<rparr>"

definition exampleMint :: string where
  "exampleMint = ''9xQeWvG816bUx9EPjHmaT23yvVM2ZWbrrpZb9Puspump''"

definition exampleRecord :: "string list \<Rightarrow> jsval list \<Rightarrow> jsval list \<Rightarrow> jsval" where
  "exampleRecord logs keys ixs =
     JObj [(''meta'', JObj [(''err'', JNull), (''logMessages'', JArr (map JStr logs))]),
           (''transaction'', JObj [(''message'', JObj
               [(''accountKeys'', JArr keys), (''instructions'', JArr ixs)])])]"

definition exampleTransaction :: "string list \<Rightarrow> jsval" where
  "exampleTransaction logs = exampleRecord logs [JStr exampleMint] []"

definition otherMint :: string where
  "otherMint = ''4k3Dyjzvzp8eMZWUXbBCjEvwSkkk59S5iCNLY3Qrpump''"

definition watchedProgramInstruction :: jsval where
  "watchedProgramInstruction =
     JObj [(''programId'', JPublicKey ''6EF8rrecthR5Dkzon8Nwu78hRvfCKubJ14M5uBEwF6P''),
           (''accounts'', JArr []), (''data'', JStr ''migrate'')]"

definition mintToInstruction :: jsval where
  "mintToInstruction = JObj [(''program'', JStr ''spl-token''),
     (''parsed'', JObj [(''type'', JStr ''mintTo''),
                        (''info'', JObj [(''tokenMint'', JStr otherMint)])])]"

definition indexInstruction :: jsval where
  "indexInstruction = JObj [(''accounts'', JArr [JNum 2]), (''data'', JStr ''3Bxs4h24hBtQy9rw'')]"

definition exampleResponses :: "jsval \<Rightarrow> responses" where
  "exampleResponses tx =
     \<lparr>getParsedTransaction = Returns tx, typeErrorMessage = None,
      parseMigrationTransactionFromParsed = Returns (Some (JStr exampleMint)),
      fetchTokenData = Returns True, sendMigrationAlert = Returns ()\<rparr>"

definition exampleMessage :: "string \<Rightarrow> stream_message" where
  "exampleMessage sig =
     \<lparr>messageMethod = Some ''logsNotification'', valueSignature = Some sig, valueLogs = None,
      resultSignature = None, resultLogs = None, transactionSignatures = None\<rparr>"

definition exampleSignatures :: "string list" where
  "exampleSignatures = map (\<lambda>n. replicate (Suc n) CHR ''S'') [0..<1001]"

section \<open>Facts about the built-in operations\<close>

lemma includesStr_sublist: "includesStr h n = sublist n h"
  by (induction h) (auto simp: sublist_Cons_right)

lemma someM_pure:
  "(\<And>x. x \<in> set xs \<Longrightarrow> f x = Some (p x)) \<Longrightarrow> someM f xs = Some (\<exists>x\<in>set xs. p x)"
  by (induction xs) auto

lemma joinM_strings_total: "\<exists>j. joinM h sep (map JStr ls) = Some j"
  by (induction ls) auto

lemma joinM_strings:
  "l \<in> set ls \<Longrightarrow> \<exists>j. joinM h sep (map JStr ls) = Some j \<and> sublist l j"
proof (induction ls)
  case Nil
  then show ?case by simp
next
  case (Cons a ls)
  obtain j where j: "joinM h sep (map JStr ls) = Some j"
    using joinM_strings_total by blast
  show ?case
  proof (cases "l = a")
    case True
    then show ?thesis using j by (auto intro: sublist_appendI)
  next
    case False
    then have mem: "l \<in> set ls" using Cons.prems by simp
    from Cons.IH[OF mem] j have "sublist l j" by simp
    then have "sublist l (a @ sep @ j)"
      by (simp add: sublist_append)
    moreover have "ls \<noteq> []" using mem by auto
    ultimately show ?thesis using j by simp
  qed
qed

lemma sublist_map: "sublist xs ys \<Longrightarrow> sublist (map f xs) (map f ys)"
  unfolding sublist_def by (metis map_append)

lemma lower_marker: "toLowerCase ''Instruction: Migrate'' = ''instruction: migrate''"
  by code_simp

lemma marker_has_migrate: "sublist ''migrate'' ''instruction: migrate''"
  unfolding includesStr_sublist[symmetric] by simp

section \<open>The log check of the detector\<close>

lemma hasMigrateLog_strings:
  "hasMigrateLog (JArr (map JStr logs))
     = Some (\<exists>log\<in>set logs. includesStr log ''Instruction: Migrate'')"
proof -
  have "someM (\<lambda>log. includesM log ''Instruction: Migrate'') (map JStr logs)
        = Some (\<exists>x\<in>set (map JStr logs).
                  case x of JStr s \<Rightarrow> includesStr s ''Instruction: Migrate'' | _ \<Rightarrow> False)"
    by (rule someM_pure) (auto simp: includesM_def)
  then show ?thesis by (simp add: hasMigrateLog_def arraySome_def)
qed

text \<open>
  Claim C7, as the code has it. For every list of log lines, the log check of
  \<open>hasMigrateInstruction\<close> is true exactly when some line contains the literal marker
  \<open>Instruction: Migrate\<close>, compared code unit by code unit (case-sensitively); with no
  instructions to look at, that is also the result of \<open>hasMigrateInstruction\<close>.
\<close>

theorem hasMigrateLog_exact_marker:
  "hasMigrateLog (JArr (map JStr logs))
     = Some (\<exists>log\<in>set logs. includesStr log ''Instruction: Migrate'')
   \<and> hasMigrateInstruction cfg (JArr []) (JArr (map JStr logs))
     = Some (\<exists>log\<in>set logs. includesStr log ''Instruction: Migrate'')"
  by (simp add: hasMigrateLog_strings hasMigrateInstruction_def arraySome_def)

theorem hasMigrateLog_exact_marker_witness:
  "hasMigrateLog (JArr (map JStr [''Program log: Instruction: Migrate''])) = Some True
   \<and> hasMigrateInstruction \<lparr>pumpFunProgramId = ''P'', pumpFunAmmProgramId = ''A''\<rparr>
        (JArr []) (JArr (map JStr [''Program log: Instruction: Migrate''])) = Some True"
  using hasMigrateLog_exact_marker
    [of "[''Program log: Instruction: Migrate'']"
        "\<lparr>pumpFunProgramId = ''P'', pumpFunAmmProgramId = ''A''\<rparr>"]
  by simp

text \<open>
  Claim C7 as stated fails: a line that carries the marker in another letter case
  contains it under case-insensitive comparison, and the check is false.
\<close>

theorem hasMigrateLog_other_case_counterexample:
  "hasMigrateLog (JArr [JStr ''Program log: instruction: migrate'']) = Some False
   \<and> includesStr (toLowerCase ''Program log: instruction: migrate'')
        (toLowerCase ''Instruction: Migrate'')"
  by code_simp

section \<open>The pre-filter and the log check\<close>

text \<open>
  Claim C10. For every list of log lines, if the detector's log check holds (some line
  contains the migration instruction marker), the orchestrator's pre-filter
  \<open>hasMigrationIndicators\<close> holds on the same lines.
\<close>

theorem prefilter_covers_log_check:
  assumes "hasMigrateLog (JArr (map JStr logs)) = Some True"
  shows "hasMigrationIndicators h (JArr (map JStr logs)) = Some True"
proof -
  from assms obtain l where l: "l \<in> set logs" "sublist ''Instruction: Migrate'' l"
    by (auto simp: hasMigrateLog_strings includesStr_sublist)
  from joinM_strings[OF l(1)] obtain j
    where j: "joinM h '' '' (map JStr logs) = Some j" "sublist l j"
    by blast
  have "sublist ''Instruction: Migrate'' j"
    using l(2) j(2) by (rule sublist_order.order_trans)
  then have "sublist (toLowerCase ''Instruction: Migrate'') (toLowerCase j)"
    unfolding toLowerCase_def by (rule sublist_map)
  then have "sublist ''instruction: migrate'' (toLowerCase j)"
    by (simp only: lower_marker)
  with marker_has_migrate have "sublist ''migrate'' (toLowerCase j)"
    by (rule sublist_order.order_trans)
  then show ?thesis using j(1)
    by (simp add: hasMigrationIndicators_def truthy_def isArray_def includesStr_sublist)
qed

theorem prefilter_covers_log_check_witness:
  "hasMigrateLog (JArr (map JStr [''Program log: Instruction: Migrate''])) = Some True
   \<and> hasMigrationIndicators \<lparr>numberToString = (\<lambda>n. []), parseInt = (\<lambda>s. None)\<rparr>
        (JArr (map JStr [''Program log: Instruction: Migrate''])) = Some True"
proof -
  have a: "hasMigrateLog (JArr (map JStr [''Program log: Instruction: Migrate''])) = Some True"
    by (simp add: hasMigrateLog_def arraySome_def includesM_def)
  from prefilter_covers_log_check[OF a] a show ?thesis by simp
qed

section \<open>The reconnection policy of the WebSocket client\<close>

lemma cycle_nonauth:
  assumes "code \<noteq> 1008" "code \<noteq> 1003" "\<not> isReconnecting c"
    "reconnectAttempts c < maxReconnectAttempts c"
  shows "reconnectTimerFires (onClose code c)
         = c\<lparr>ws := Connecting, reconnectInterval := None, pingInterval := False,
              subscriptionId := None, reconnectAttempts := reconnectAttempts c + 1,
              isReconnecting := False, connectCalls := connectCalls c + 1\<rparr>"
  using assms
  by (simp add: onClose_def cleanup_def scheduleReconnect_def reconnectTimerFires_def connect_def)

lemma cycle_exhausted:
  assumes "\<not> isReconnecting c" "reconnectAttempts c \<ge> maxReconnectAttempts c"
    "reconnectInterval c = None"
  shows "connectCalls (reconnectTimerFires (onClose code c)) = connectCalls c
       \<and> \<not> isReconnecting (reconnectTimerFires (onClose code c))
       \<and> reconnectAttempts (reconnectTimerFires (onClose code c)) = reconnectAttempts c
       \<and> maxReconnectAttempts (reconnectTimerFires (onClose code c)) = maxReconnectAttempts c
       \<and> reconnectInterval (reconnectTimerFires (onClose code c)) = None"
  using assms
  by (simp add: onClose_def cleanup_def scheduleReconnect_def reconnectTimerFires_def connect_def)

lemma cycle_opened:
  assumes "code \<noteq> 1008" "code \<noteq> 1003" "\<not> isReconnecting c" "0 < maxReconnectAttempts c"
  shows "reconnectTimerFires (onClose code (onOpen c))
         = c\<lparr>ws := Connecting, reconnectInterval := None, pingInterval := False,
              subscriptionId := None, reconnectAttempts := 1,
              isReconnecting := False, connectCalls := connectCalls c + 1\<rparr>"
  using assms
  by (simp add: onOpen_def onClose_def cleanup_def scheduleReconnect_def reconnectTimerFires_def
        connect_def)

lemma connections_counted:
  "\<not> isReconnecting c \<Longrightarrow> \<forall>p\<in>set run. \<not> fst p \<and> snd p \<noteq> 1008 \<and> snd p \<noteq> 1003 \<Longrightarrow>
   reconnectAttempts c + length run \<le> maxReconnectAttempts c \<Longrightarrow>
   connectCalls (connections run c) = connectCalls c + length run
   \<and> reconnectAttempts (connections run c) = reconnectAttempts c + length run
   \<and> maxReconnectAttempts (connections run c) = maxReconnectAttempts c
   \<and> \<not> isReconnecting (connections run c)
   \<and> (run \<noteq> [] \<longrightarrow> reconnectInterval (connections run c) = None)"
proof (induction run arbitrary: c)
  case Nil
  then show ?case by simp
next
  case (Cons p run)
  obtain opened code where p: "p = (opened, code)" by (cases p)
  from Cons.prems(2) p have no: "\<not> opened" and c1: "code \<noteq> 1008" and c2: "code \<noteq> 1003"
    by simp_all
  let ?c = "reconnectTimerFires (onClose code c)"
  have lt: "reconnectAttempts c < maxReconnectAttempts c" using Cons.prems(3) by simp
  have step: "?c = c\<lparr>ws := Connecting, reconnectInterval := None, pingInterval := False,
              subscriptionId := None, reconnectAttempts := reconnectAttempts c + 1,
              isReconnecting := False, connectCalls := connectCalls c + 1\<rparr>"
    using c1 c2 Cons.prems(1) lt by (rule cycle_nonauth)
  have ih: "connectCalls (connections run ?c) = connectCalls ?c + length run
   \<and> reconnectAttempts (connections run ?c) = reconnectAttempts ?c + length run
   \<and> maxReconnectAttempts (connections run ?c) = maxReconnectAttempts ?c
   \<and> \<not> isReconnecting (connections run ?c)
   \<and> (run \<noteq> [] \<longrightarrow> reconnectInterval (connections run ?c) = None)"
    using Cons.prems by (intro Cons.IH) (simp_all add: step)
  show ?case
  proof (cases "run = []")
    case True
    then show ?thesis by (simp add: p no step)
  next
    case False
    then show ?thesis using ih by (simp add: p no step)
  qed
qed

lemma connections_exhausted:
  "\<not> isReconnecting c \<Longrightarrow> reconnectAttempts c \<ge> maxReconnectAttempts c \<Longrightarrow>
   reconnectInterval c = None \<Longrightarrow> \<forall>p\<in>set run. \<not> fst p \<Longrightarrow>
   connectCalls (connections run c) = connectCalls c"
proof (induction run arbitrary: c)
  case Nil
  then show ?case by simp
next
  case (Cons p run)
  obtain opened code where p: "p = (opened, code)" by (cases p)
  from Cons.prems(4) p have no: "\<not> opened" and rest: "\<forall>p\<in>set run. \<not> fst p" by simp_all
  let ?c = "reconnectTimerFires (onClose code c)"
  from cycle_exhausted[OF Cons.prems(1-3), of code]
  have st: "connectCalls ?c = connectCalls c" "\<not> isReconnecting ?c"
    "reconnectAttempts ?c = reconnectAttempts c"
    "maxReconnectAttempts ?c = maxReconnectAttempts c" "reconnectInterval ?c = None"
    by simp_all
  have "connectCalls (connections run ?c) = connectCalls ?c"
    using st Cons.prems(2) rest by (intro Cons.IH) simp_all
  then show ?case by (simp add: p no st)
qed

lemma connections_opened:
  "\<not> isReconnecting c \<Longrightarrow> 0 < maxReconnectAttempts c \<Longrightarrow>
   \<forall>p\<in>set run. fst p \<and> snd p \<noteq> 1008 \<and> snd p \<noteq> 1003 \<Longrightarrow>
   connectCalls (connections run c) = connectCalls c + length run"
proof (induction run arbitrary: c)
  case Nil
  then show ?case by simp
next
  case (Cons p run)
  obtain opened code where p: "p = (opened, code)" by (cases p)
  from Cons.prems(3) p have op: "opened" and c1: "code \<noteq> 1008" and c2: "code \<noteq> 1003"
    and rest: "\<forall>p\<in>set run. fst p \<and> snd p \<noteq> 1008 \<and> snd p \<noteq> 1003" by simp_all
  let ?c = "reconnectTimerFires (onClose code (onOpen c))"
  have step: "?c = c\<lparr>ws := Connecting, reconnectInterval := None, pingInterval := False,
              subscriptionId := None, reconnectAttempts := 1,
              isReconnecting := False, connectCalls := connectCalls c + 1\<rparr>"
    using c1 c2 Cons.prems(1,2) by (rule cycle_opened)
  have "connectCalls (connections run ?c) = connectCalls ?c + length run"
    using Cons.prems(2) rest by (intro Cons.IH) (simp_all add: step)
  then show ?case by (simp add: p op step)
qed

text \<open>
  Claim C9, as the code has it. A close with code 1008 or 1003 schedules nothing: with no
  timer pending, no reconnect follows. Any other close, while the attempts are below the
  maximum and no reconnect is pending, sets the reconnect timer with the fixed delay of
  1000 ms, and the timer calls \<open>connect\<close> once. After as many consecutive disconnects of
  connections that never opened as the maximum, starting from zero attempts, \<open>connect\<close>
  has been called exactly that many times, and it is not called again while no connection
  opens. An open resets the attempts: connections that open before they drop are each
  followed by a reconnect, however many they are.
\<close>

theorem reconnect_policy:
  "((code = 1008 \<or> code = 1003) \<and> reconnectInterval c = None \<longrightarrow>
       connectCalls (onClose code c) = connectCalls c
     \<and> reconnectInterval (onClose code c) = None
     \<and> reconnectTimerFires (onClose code c) = onClose code c)
 \<and> (code \<noteq> 1008 \<and> code \<noteq> 1003 \<and> \<not> isReconnecting c
      \<and> reconnectAttempts c < maxReconnectAttempts c \<longrightarrow>
       reconnectInterval (onClose code c) = Some 1000
     \<and> connectCalls (reconnectTimerFires (onClose code c)) = connectCalls c + 1)
 \<and> ((\<forall>p\<in>set run. \<not> fst p \<and> snd p \<noteq> 1008 \<and> snd p \<noteq> 1003)
      \<and> length run = maxReconnectAttempts c \<and> 0 < maxReconnectAttempts c
      \<and> reconnectAttempts c = 0 \<and> \<not> isReconnecting c \<longrightarrow>
       connectCalls (connections run c) = connectCalls c + maxReconnectAttempts c
     \<and> ((\<forall>p\<in>set further. \<not> fst p) \<longrightarrow>
          connectCalls (connections further (connections run c))
            = connectCalls c + maxReconnectAttempts c))
 \<and> ((\<forall>p\<in>set opening. fst p \<and> snd p \<noteq> 1008 \<and> snd p \<noteq> 1003)
      \<and> 0 < maxReconnectAttempts c \<and> \<not> isReconnecting c \<longrightarrow>
       reconnectAttempts (onOpen c) = 0
     \<and> connectCalls (connections opening c) = connectCalls c + length opening)"
proof (intro conjI impI)
  assume a: "(code = 1008 \<or> code = 1003) \<and> reconnectInterval c = None"
  then show "connectCalls (onClose code c) = connectCalls c"
    "reconnectInterval (onClose code c) = None"
    "reconnectTimerFires (onClose code c) = onClose code c"
    by (auto simp: onClose_def reconnectTimerFires_def)
next
  assume a: "code \<noteq> 1008 \<and> code \<noteq> 1003 \<and> \<not> isReconnecting c
      \<and> reconnectAttempts c < maxReconnectAttempts c"
  then show "reconnectInterval (onClose code c) = Some 1000"
    by (simp add: onClose_def cleanup_def scheduleReconnect_def)
  from a show "connectCalls (reconnectTimerFires (onClose code c)) = connectCalls c + 1"
    by (simp add: cycle_nonauth)
next
  assume a: "(\<forall>p\<in>set run. \<not> fst p \<and> snd p \<noteq> 1008 \<and> snd p \<noteq> 1003)
      \<and> length run = maxReconnectAttempts c \<and> 0 < maxReconnectAttempts c
      \<and> reconnectAttempts c = 0 \<and> \<not> isReconnecting c"
  then have d: "connectCalls (connections run c) = connectCalls c + length run
   \<and> reconnectAttempts (connections run c) = reconnectAttempts c + length run
   \<and> maxReconnectAttempts (connections run c) = maxReconnectAttempts c
   \<and> \<not> isReconnecting (connections run c)
   \<and> (run \<noteq> [] \<longrightarrow> reconnectInterval (connections run c) = None)"
    by (intro connections_counted) auto
  with a show "connectCalls (connections run c) = connectCalls c + maxReconnectAttempts c"
    by simp
  assume f: "\<forall>p\<in>set further. \<not> fst p"
  have "run \<noteq> []" using a by auto
  with d a f have "connectCalls (connections further (connections run c))
     = connectCalls (connections run c)"
    by (intro connections_exhausted) auto
  with d a show "connectCalls (connections further (connections run c))
         = connectCalls c + maxReconnectAttempts c" by simp
next
  show "reconnectAttempts (onOpen c) = 0" by (simp add: onOpen_def)
next
  assume a: "(\<forall>p\<in>set opening. fst p \<and> snd p \<noteq> 1008 \<and> snd p \<noteq> 1003)
      \<and> 0 < maxReconnectAttempts c \<and> \<not> isReconnecting c"
  then show "connectCalls (connections opening c) = connectCalls c + length opening"
    by (intro connections_opened) auto
qed

theorem reconnect_policy_witness:
  "connectCalls (onClose 1008 (connect newClient)) = 1
   \<and> reconnectTimerFires (onClose 1008 (connect newClient)) = onClose 1008 (connect newClient)
   \<and> reconnectInterval (onClose 1006 (connect newClient)) = Some 1000
   \<and> connectCalls (connections (replicate 10 (False, 1006)) (connect newClient)) = 11
   \<and> connectCalls (connections [(False, 1006), (False, 1000), (False, 1008)]
        (connections (replicate 10 (False, 1006)) (connect newClient))) = 11
   \<and> connectCalls (connections [(True, 1006), (True, 1000)] (connect newClient)) = 3"
  using reconnect_policy[of 1008 "connect newClient" "replicate 10 (False, 1006)"
          "[(False, 1006), (False, 1000), (False, 1008)]" "[(True, 1006), (True, 1000)]"]
        reconnect_policy[of 1006 "connect newClient" "replicate 10 (False, 1006)"
          "[(False, 1006), (False, 1000), (False, 1008)]" "[(True, 1006), (True, 1000)]"]
  by (simp add: newClient_def connect_def)

text \<open>
  Claim C9 as stated fails: eleven consecutive disconnects of connections that had opened,
  one more than the maximum of ten, are followed by eleven reconnects.
\<close>

theorem reconnect_after_open_counterexample:
  "maxReconnectAttempts (connect newClient) = 10
   \<and> connectCalls (connect newClient) = 1
   \<and> connectCalls (connections (replicate 11 (True, 1006)) (connect newClient)) = 12"
proof -
  have "connectCalls (connections (replicate 11 (True, 1006)) (connect newClient))
        = connectCalls (connect newClient) + length (replicate 11 (True, 1006::nat))"
    by (rule connections_opened) (simp_all add: newClient_def connect_def)
  then show ?thesis by (simp add: newClient_def connect_def)
qed

section \<open>The ledger and the queue of the orchestrator\<close>

lemma fold_setDelete: "fold setDelete ys zs = filter (\<lambda>z. z \<notin> set ys) zs"
proof (induction ys arbitrary: zs)
  case Nil
  then show ?case by simp
next
  case (Cons y ys)
  have "fold setDelete (y # ys) zs
        = filter (\<lambda>z. z \<notin> set ys) (filter (\<lambda>z. y \<noteq> z) zs)"
    by (simp add: Cons.IH setDelete_def removeAll_filter_not_eq)
  also have "\<dots> = filter (\<lambda>z. z \<notin> set (y # ys)) zs"
    by (auto intro!: filter_cong)
  finally show ?case .
qed

lemma filter_not_take: "distinct xs \<Longrightarrow> filter (\<lambda>z. z \<notin> set (take n xs)) xs = drop n xs"
proof -
  assume d: "distinct xs"
  have split: "xs = take n xs @ drop n xs" by simp
  from d have disj: "set (take n xs) \<inter> set (drop n xs) = {}"
    by (metis append_take_drop_id distinct_append)
  have a: "filter (\<lambda>z. z \<notin> set (take n xs)) (take n xs) = []" by simp
  have b: "filter (\<lambda>z. z \<notin> set (take n xs)) (drop n xs) = drop n xs"
    using disj by (auto simp: filter_id_conv)
  have "filter (\<lambda>z. z \<notin> set (take n xs)) (take n xs @ drop n xs) = drop n xs"
    unfolding filter_append a b by simp
  then show ?thesis by simp
qed

lemma cleanupProcessed_distinct:
  "distinct xs \<Longrightarrow> cleanupProcessed xs = drop (length xs - 1000) xs"
  by (simp add: cleanupProcessed_def fold_setDelete filter_not_take)

lemma length_filter_take_le:
  "length (filter (\<lambda>z. z \<notin> set (take n xs)) xs) \<le> length xs - n"
proof -
  have "filter (\<lambda>z. z \<notin> set (take n xs)) xs
        = filter (\<lambda>z. z \<notin> set (take n xs)) (take n xs @ drop n xs)" by simp
  also have "\<dots> = filter (\<lambda>z. z \<notin> set (take n xs)) (drop n xs)"
    unfolding filter_append by simp
  finally have "length (filter (\<lambda>z. z \<notin> set (take n xs)) xs) \<le> length (drop n xs)"
    by (simp only: length_filter_le)
  then show ?thesis by simp
qed

lemma cleanupProcessed_cap: "length (cleanupProcessed xs) \<le> 1000"
proof (cases "length xs > 1000")
  case True
  have "length (filter (\<lambda>z. z \<notin> set (take (length xs - 1000) xs)) xs)
        \<le> length xs - (length xs - 1000)"
    by (rule length_filter_take_le)
  with True show ?thesis by (simp add: cleanupProcessed_def fold_setDelete)
next
  case False
  then show ?thesis by (simp add: cleanupProcessed_def)
qed

lemma setAdd_new: "x \<notin> set xs \<Longrightarrow> setAdd x xs = xs @ [x]"
  by (simp add: setAdd_def)

lemma complete_path:
  assumes "getParsedTransaction env = Returns tx" "truthy tx"
    "map_option isMigration (detectMigrationFromTransaction h cfg tx sig) = Some True"
    "parseMigrationTransactionFromParsed env = Returns (Some mint)" "truthy mint"
    "fetchTokenData env = Returns True" "sendMigrationAlert env = Returns ()"
    "sig \<notin> set (processedSignatures s)" "displayLogs tx = Some ()"
  shows "processedSignatures (fetchAndProcessTransaction h cfg env sig s)
         = cleanupProcessed (processedSignatures s @ [sig])"
proof -
  from assms(3) obtain d where d: "detectMigrationFromTransaction h cfg tx sig = Some d" "isMigration d"
    by auto
  show ?thesis using assms(1,2,4-9) d
    by (simp add: fetchAndProcessTransaction_def sendAlert_def setAdd_new Let_def)
qed

lemma run_complete:
  assumes env: "getParsedTransaction env = Returns tx" "truthy tx"
    "\<And>sig. map_option isMigration (detectMigrationFromTransaction h cfg tx sig) = Some True"
    "parseMigrationTransactionFromParsed env = Returns (Some mint)" "truthy mint"
    "fetchTokenData env = Returns True" "sendMigrationAlert env = Returns ()"
    "displayLogs tx = Some ()"
  shows "distinct sigs \<Longrightarrow>
     processedSignatures (fold (fetchAndProcessTransaction h cfg env) sigs initialOrchestrator)
       = drop (length sigs - 1000) sigs"
proof (induction sigs rule: rev_induct)
  case Nil
  then show ?case by (simp add: initialOrchestrator_def)
next
  case (snoc x xs)
  let ?s = "fold (fetchAndProcessTransaction h cfg env) xs initialOrchestrator"
  from snoc have ih: "processedSignatures ?s = drop (length xs - 1000) xs" and
    nx: "x \<notin> set xs" and dx: "distinct xs" by auto
  have notin: "x \<notin> set (processedSignatures ?s)"
    using nx ih by (auto dest: in_set_dropD)
  have "processedSignatures (fetchAndProcessTransaction h cfg env x ?s)
        = cleanupProcessed (processedSignatures ?s @ [x])"
    using env(1,2) env(3)[of x] env(4-7) notin env(8) by (rule complete_path)
  also have "\<dots> = cleanupProcessed (drop (length xs - 1000) xs @ [x])" by (simp add: ih)
  also have "\<dots> = drop (length (xs @ [x]) - 1000) (xs @ [x])"
  proof -
    have "distinct (drop (length xs - 1000) xs @ [x])" using dx nx
      by (auto dest: in_set_dropD)
    then have c: "cleanupProcessed (drop (length xs - 1000) xs @ [x])
        = drop (length (drop (length xs - 1000) xs @ [x]) - 1000) (drop (length xs - 1000) xs @ [x])"
      by (rule cleanupProcessed_distinct)
    show ?thesis
    proof (cases "length xs \<ge> 1000")
      case True
      then have "length (drop (length xs - 1000) xs @ [x]) - 1000 = 1" by simp
      with c have "cleanupProcessed (drop (length xs - 1000) xs @ [x])
        = drop 1 (drop (length xs - 1000) xs @ [x])" by simp
      also have "\<dots> = drop (Suc (length xs - 1000)) xs @ [x]" using True by simp
      also have "Suc (length xs - 1000) = length xs - 999" using True by arith
      finally show ?thesis using True by simp
    next
      case False
      then show ?thesis using c by simp
    qed
  qed
  finally show ?case by simp
qed


lemma catchBlock_ledger [simp]: "processedSignatures (catchBlock m sig s) = processedSignatures s"
  by (simp add: catchBlock_def)

lemma catchBlock_queue [simp]: "pendingFetches (catchBlock m sig s) = pendingFetches s"
  by (simp add: catchBlock_def)

lemma catchBlock_fetched [simp]: "fetched (catchBlock m sig s) = fetched s"
  by (simp add: catchBlock_def)

lemma catchBlock_classified [simp]: "classified (catchBlock m sig s) = classified s"
  by (simp add: catchBlock_def)

lemma ledger_not_positive:
  "\<not> (\<exists>tx d. getParsedTransaction env = Returns tx \<and> truthy tx
       \<and> detectMigrationFromTransaction h cfg tx sig = Some d \<and> isMigration d) \<Longrightarrow>
   processedSignatures (fetchAndProcessTransaction h cfg env sig s) = processedSignatures s"
  by (auto simp: fetchAndProcessTransaction_def Let_def split: outcome.splits option.splits)

lemma ledger_positive:
  assumes "getParsedTransaction env = Returns tx" "truthy tx"
    "detectMigrationFromTransaction h cfg tx sig = Some d" "isMigration d"
    "sig \<notin> set (processedSignatures s)"
  shows "processedSignatures (fetchAndProcessTransaction h cfg env sig s) = processedSignatures s @ [sig]
       \<or> processedSignatures (fetchAndProcessTransaction h cfg env sig s)
           = cleanupProcessed (processedSignatures s @ [sig])"
  using assms
  by (auto simp: fetchAndProcessTransaction_def Let_def sendAlert_def setAdd_new
           split: outcome.splits option.splits bool.splits)

lemma newest_survives:
  assumes "distinct xs" "x \<notin> set xs"
  shows "x \<in> set (cleanupProcessed (xs @ [x]))"
proof -
  have "cleanupProcessed (xs @ [x]) = drop (length (xs @ [x]) - 1000) (xs @ [x])"
    using assms by (intro cleanupProcessed_distinct) simp
  also have "\<dots> = drop (length xs - 999) xs @ [x]" by simp
  finally show ?thesis by simp
qed

lemma traces_skip:
  "sig \<in> set (processedSignatures s) \<Longrightarrow> fetchAndProcessTransaction h cfg env sig s = s"
  by (simp add: fetchAndProcessTransaction_def)

lemma fetched_after:
  "sig \<notin> set (processedSignatures s) \<Longrightarrow>
   fetched (fetchAndProcessTransaction h cfg env sig s) = fetched s @ [sig]"
  by (auto simp: fetchAndProcessTransaction_def Let_def sendAlert_def
           split: outcome.splits option.splits bool.splits)

lemma classified_after:
  "sig \<notin> set (processedSignatures s) \<Longrightarrow> getParsedTransaction env = Returns tx \<Longrightarrow> truthy tx \<Longrightarrow>
   classified (fetchAndProcessTransaction h cfg env sig s) = classified s @ [sig]"
  by (auto simp: fetchAndProcessTransaction_def Let_def sendAlert_def
           split: outcome.splits option.splits bool.splits)

lemma queue_after [simp]:
  "pendingFetches (fetchAndProcessTransaction h cfg env sig s) = pendingFetches s"
  by (auto simp: fetchAndProcessTransaction_def Let_def sendAlert_def
           split: outcome.splits option.splits bool.splits)

lemma endsWith_rev: "endsWith s t = prefix (rev t) (rev s)"
  by (simp add: endsWith_def suffix_to_prefix)

lemmas js_defs = truthy_def getProp_def optProp_def inOp_def isArray_def includesM_def
  arraySome_def arrayMap_def iterate_def endsWith_rev

lemmas detector_defs = detectMigrationFromTransaction_def hasMigrateInstruction_def
  hasMigrateLog_def hasCollectFee_def isExclusionLog_def isMigrateIx_def extractTokenMint_def
  accountKeyString_def isPumpAddress_def isFallbackAddress_def instructionMint_def notMigration_def

lemma detect_migrate:
  "detectMigrationFromTransaction h cfg (exampleTransaction [''Program log: Instruction: Migrate'']) sig
   = Some \<lparr>isMigration = True, tokenMint = JStr exampleMint, signature = Some sig\<rparr>"
  by (simp add: exampleTransaction_def exampleRecord_def exampleMint_def detector_defs js_defs Let_def)

lemma detect_fee:
  "detectMigrationFromTransaction h cfg (exampleTransaction
      [''Program log: Instruction: Migrate'', ''Program log: Instruction: CollectCreatorFee'']) sig
   = Some notMigration"
  by (simp add: exampleTransaction_def exampleRecord_def exampleMint_def detector_defs js_defs Let_def)

text \<open>
  The maintenance step and the one path that runs it. After \<open>cleanupProcessed\<close> a ledger
  holds at most 1000 signatures; applied to 1001 distinct signatures it leaves exactly
  1000, the first-inserted one evicted; and when every one of a list of distinct
  signatures is processed along the complete path (mint parsed, token data fetched, alert
  sent), which ends in maintenance, the ledger holds the last 1000 of them in insertion
  order.
\<close>

theorem ledger_cap:
  "length (cleanupProcessed ledger) \<le> 1000
   \<and> (distinct sigs \<and> length sigs = 1001 \<longrightarrow>
        cleanupProcessed (fold setAdd sigs []) = drop 1 sigs
      \<and> length (cleanupProcessed (fold setAdd sigs [])) = 1000)
   \<and> (distinct sigs \<and> getParsedTransaction env = Returns tx \<and> truthy tx
        \<and> (\<forall>sig. map_option isMigration (detectMigrationFromTransaction h cfg tx sig) = Some True)
        \<and> displayLogs tx = Some ()
        \<and> parseMigrationTransactionFromParsed env = Returns (Some mint) \<and> truthy mint
        \<and> fetchTokenData env = Returns True \<and> sendMigrationAlert env = Returns () \<longrightarrow>
        processedSignatures (fold (fetchAndProcessTransaction h cfg env) sigs initialOrchestrator)
          = drop (length sigs - 1000) sigs)"
proof (intro conjI impI)
  show "length (cleanupProcessed ledger) \<le> 1000" by (rule cleanupProcessed_cap)
next
  assume a: "distinct sigs \<and> length sigs = 1001"
  have f: "\<And>ys. distinct (ys @ sigs) \<Longrightarrow> fold setAdd sigs ys = ys @ sigs"
  proof (induction sigs)
    case Nil
    then show ?case by simp
  next
    case (Cons x xs)
    have "fold setAdd (x # xs) ys = fold setAdd xs (ys @ [x])"
      using Cons.prems by (simp add: setAdd_def)
    also have "\<dots> = (ys @ [x]) @ xs" using Cons.prems by (intro Cons.IH) simp
    finally show ?case by simp
  qed
  from a have e: "fold setAdd sigs [] = sigs" using f[of "[]"] by simp
  from a show "cleanupProcessed (fold setAdd sigs []) = drop 1 sigs"
    by (simp add: e cleanupProcessed_distinct)
  then show "length (cleanupProcessed (fold setAdd sigs [])) = 1000" using a by simp
next
  assume a: "distinct sigs \<and> getParsedTransaction env = Returns tx \<and> truthy tx
        \<and> (\<forall>sig. map_option isMigration (detectMigrationFromTransaction h cfg tx sig) = Some True)
        \<and> displayLogs tx = Some ()
        \<and> parseMigrationTransactionFromParsed env = Returns (Some mint) \<and> truthy mint
        \<and> fetchTokenData env = Returns True \<and> sendMigrationAlert env = Returns ()"
  then show "processedSignatures (fold (fetchAndProcessTransaction h cfg env) sigs initialOrchestrator)
          = drop (length sigs - 1000) sigs"
    by (intro run_complete[where tx = tx and mint = mint]) auto
qed

lemma exampleSignatures_distinct: "distinct exampleSignatures"
  by (simp add: exampleSignatures_def distinct_map inj_on_def replicate_eq_replicate)

lemma exampleSignatures_length: "length exampleSignatures = 1001"
  by (simp add: exampleSignatures_def)

lemma truthy_exampleTransaction: "truthy (exampleTransaction logs)"
  by (simp add: exampleTransaction_def exampleRecord_def truthy_def)

lemma displayLogs_exampleTransaction: "displayLogs (exampleTransaction logs) = Some ()"
  by (simp add: displayLogs_def exampleTransaction_def exampleRecord_def getProp_def)

theorem ledger_cap_witness:
  "length (cleanupProcessed (fold setAdd exampleSignatures [])) = 1000
   \<and> cleanupProcessed (fold setAdd exampleSignatures []) = drop 1 exampleSignatures
   \<and> processedSignatures
        (fold (fetchAndProcessTransaction exampleHost exampleConfig
                 (exampleResponses (exampleTransaction [''Program log: Instruction: Migrate''])))
           exampleSignatures initialOrchestrator)
       = drop 1 exampleSignatures"
  using ledger_cap[of "[]" exampleSignatures
          "exampleResponses (exampleTransaction [''Program log: Instruction: Migrate''])"
          "exampleTransaction [''Program log: Instruction: Migrate'']"
          exampleHost exampleConfig "JStr exampleMint"]
        exampleSignatures_distinct exampleSignatures_length truthy_exampleTransaction
        displayLogs_exampleTransaction detect_migrate[of exampleHost exampleConfig]
  by (simp add: exampleResponses_def truthy_def exampleMint_def)




text \<open>
  Claim C8. When the fetch of a signature fails with a rate-limit signal (a message
  containing \<open>429\<close> or \<open>Too Many Requests\<close>), a timer with the fixed delay of 2000 ms is set
  for it and nothing else changes; when the timer fires, the signature goes to the back of
  the queue provided the ledger does not hold it. Any other failure of the fetch, and a
  transaction that was not found, leave queue, timers and ledger as they were.
\<close>

theorem rate_limit_retry:
  "(sig \<notin> set (processedSignatures s) \<and> getParsedTransaction env = Throws m \<and> isRateLimit m \<longrightarrow>
      fetchAndProcessTransaction h cfg env sig s
        = s\<lparr>fetched := fetched s @ [sig], retryTimers := retryTimers s @ [(sig, 2000)]\<rparr>)
   \<and> (sig \<notin> set (processedSignatures s) \<and> getParsedTransaction env = Throws m \<and> \<not> isRateLimit m \<longrightarrow>
      fetchAndProcessTransaction h cfg env sig s = s\<lparr>fetched := fetched s @ [sig]\<rparr>)
   \<and> (sig \<notin> set (processedSignatures s) \<and> getParsedTransaction env = Returns tx \<and> \<not> truthy tx \<longrightarrow>
      fetchAndProcessTransaction h cfg env sig s = s\<lparr>fetched := fetched s @ [sig]\<rparr>)
   \<and> (sig \<notin> set (processedSignatures t) \<longrightarrow>
      pendingFetches (retryTimerFires sig now t) = pendingFetches t @ [(sig, now)])
   \<and> (sig \<in> set (processedSignatures t) \<longrightarrow>
      pendingFetches (retryTimerFires sig now t) = pendingFetches t)"
  by (simp add: fetchAndProcessTransaction_def catchBlock_def retryTimerFires_def
        processFetchQueue_def Let_def)

theorem rate_limit_retry_witness:
  "fetchAndProcessTransaction exampleHost exampleConfig
       ((exampleResponses JNull)\<lparr>getParsedTransaction := Throws (Some ''429 Too Many Requests'')\<rparr>)
       ''SIG1'' initialOrchestrator
     = initialOrchestrator\<lparr>fetched := [''SIG1''], retryTimers := [(''SIG1'', 2000)]\<rparr>
   \<and> fetchAndProcessTransaction exampleHost exampleConfig
       ((exampleResponses JNull)\<lparr>getParsedTransaction := Throws (Some ''fetch failed'')\<rparr>)
       ''SIG1'' initialOrchestrator
     = initialOrchestrator\<lparr>fetched := [''SIG1'']\<rparr>
   \<and> pendingFetches (retryTimerFires ''SIG1'' 5000
         (initialOrchestrator\<lparr>pendingFetches := [(''SIG2'', 4000)], retryTimers := [(''SIG1'', 2000)]\<rparr>))
     = [(''SIG2'', 4000), (''SIG1'', 5000)]
   \<and> pendingFetches (retryTimerFires ''SIG1'' 5000
         (initialOrchestrator\<lparr>processedSignatures := [''SIG1''],
             pendingFetches := [(''SIG2'', 4000)], retryTimers := [(''SIG1'', 2000)]\<rparr>))
     = [(''SIG2'', 4000)]"
  using rate_limit_retry[of "''SIG1''" initialOrchestrator
          "(exampleResponses JNull)\<lparr>getParsedTransaction := Throws (Some ''429 Too Many Requests'')\<rparr>"
          "Some ''429 Too Many Requests''"
          exampleHost exampleConfig JNull
          "initialOrchestrator\<lparr>pendingFetches := [(''SIG2'', 4000)], retryTimers := [(''SIG1'', 2000)]\<rparr>"
          5000]
        rate_limit_retry[of "''SIG1''" initialOrchestrator
          "(exampleResponses JNull)\<lparr>getParsedTransaction := Throws (Some ''fetch failed'')\<rparr>"
          "Some ''fetch failed''"
          exampleHost exampleConfig JNull
          "initialOrchestrator\<lparr>processedSignatures := [''SIG1''],
             pendingFetches := [(''SIG2'', 4000)], retryTimers := [(''SIG1'', 2000)]\<rparr>"
          5000]
  by (simp add: initialOrchestrator_def exampleResponses_def isRateLimit_def)

lemma onTransaction_ledger [simp]:
  "processedSignatures (onTransaction h now msg s) = processedSignatures s"
  by (simp add: onTransaction_def processFetchQueue_def split: option.splits prod.splits)

lemma onTransaction_traces [simp]:
  "fetched (onTransaction h now msg s) = fetched s"
  "classified (onTransaction h now msg s) = classified s"
  by (simp_all add: onTransaction_def processFetchQueue_def split: option.splits prod.splits)

lemma onTransaction_enqueue:
  "messageSignature msg = Some (sig, []) \<Longrightarrow>
   pendingFetches (onTransaction h now msg s) = pendingFetches s @ [(sig, now)]"
  by (simp add: onTransaction_def processFetchQueue_def)

text \<open>
  Claim C3, as the code has it. A signature that the ledger does not hold is in the ledger
  after \<open>fetchAndProcessTransaction\<close> exactly when its transaction was fetched and the
  detector classified it as a migration. After a negative classification the call has
  only recorded the fetch and the classification: the ledger is unchanged. Receiving a
  stream message, which enqueues, never changes the ledger.
\<close>

theorem ledger_entry_on_migration_only:
  "(distinct (processedSignatures s) \<and> sig \<notin> set (processedSignatures s) \<longrightarrow>
      (sig \<in> set (processedSignatures (fetchAndProcessTransaction h cfg env sig s))
       \<longleftrightarrow> (\<exists>tx d. getParsedTransaction env = Returns tx \<and> truthy tx
              \<and> detectMigrationFromTransaction h cfg tx sig = Some d \<and> isMigration d)))
   \<and> (sig \<notin> set (processedSignatures s) \<and> getParsedTransaction env = Returns tx \<and> truthy tx
        \<and> detectMigrationFromTransaction h cfg tx sig = Some d \<and> \<not> isMigration d \<longrightarrow>
      fetchAndProcessTransaction h cfg env sig s
        = s\<lparr>fetched := fetched s @ [sig], classified := classified s @ [sig]\<rparr>)
   \<and> processedSignatures (onTransaction h now msg s) = processedSignatures s"
proof (intro conjI impI)
  assume a: "distinct (processedSignatures s) \<and> sig \<notin> set (processedSignatures s)"
  show "sig \<in> set (processedSignatures (fetchAndProcessTransaction h cfg env sig s))
       \<longleftrightarrow> (\<exists>tx d. getParsedTransaction env = Returns tx \<and> truthy tx
              \<and> detectMigrationFromTransaction h cfg tx sig = Some d \<and> isMigration d)"
  proof
    assume m: "sig \<in> set (processedSignatures (fetchAndProcessTransaction h cfg env sig s))"
    show "\<exists>tx d. getParsedTransaction env = Returns tx \<and> truthy tx
              \<and> detectMigrationFromTransaction h cfg tx sig = Some d \<and> isMigration d"
    proof (rule ccontr)
      assume "\<not> (\<exists>tx d. getParsedTransaction env = Returns tx \<and> truthy tx
              \<and> detectMigrationFromTransaction h cfg tx sig = Some d \<and> isMigration d)"
      then have "processedSignatures (fetchAndProcessTransaction h cfg env sig s)
                 = processedSignatures s" by (rule ledger_not_positive)
      with m a show False by simp
    qed
  next
    assume "\<exists>tx d. getParsedTransaction env = Returns tx \<and> truthy tx
              \<and> detectMigrationFromTransaction h cfg tx sig = Some d \<and> isMigration d"
    then obtain tx d where p: "getParsedTransaction env = Returns tx" "truthy tx"
      "detectMigrationFromTransaction h cfg tx sig = Some d" "isMigration d" by blast
    from a have notin: "sig \<notin> set (processedSignatures s)" by simp
    from a have "sig \<in> set (cleanupProcessed (processedSignatures s @ [sig]))"
      by (intro newest_survives) simp_all
    with ledger_positive[OF p notin]
    show "sig \<in> set (processedSignatures (fetchAndProcessTransaction h cfg env sig s))"
      by auto
  qed
next
  assume "sig \<notin> set (processedSignatures s) \<and> getParsedTransaction env = Returns tx \<and> truthy tx
        \<and> detectMigrationFromTransaction h cfg tx sig = Some d \<and> \<not> isMigration d"
  then show "fetchAndProcessTransaction h cfg env sig s
        = s\<lparr>fetched := fetched s @ [sig], classified := classified s @ [sig]\<rparr>"
    by (simp add: fetchAndProcessTransaction_def Let_def)
next
  show "processedSignatures (onTransaction h now msg s) = processedSignatures s" by simp
qed

lemma exampleMessage_signature: "messageSignature (exampleMessage ''SIG1'') = Some (''SIG1'', [])"
  by (simp add: messageSignature_def exampleMessage_def)

theorem ledger_entry_on_migration_only_witness:
  "''SIG1'' \<in> set (processedSignatures (fetchAndProcessTransaction exampleHost exampleConfig
        (exampleResponses (exampleTransaction [''Program log: Instruction: Migrate'']))
        ''SIG1'' initialOrchestrator))
   \<and> fetchAndProcessTransaction exampleHost exampleConfig
        (exampleResponses (exampleTransaction
           [''Program log: Instruction: Migrate'', ''Program log: Instruction: CollectCreatorFee'']))
        ''SIG1'' initialOrchestrator
      = initialOrchestrator\<lparr>fetched := [''SIG1''], classified := [''SIG1'']\<rparr>
   \<and> processedSignatures (onTransaction exampleHost 0 (exampleMessage ''SIG1'') initialOrchestrator) = []"
  using ledger_entry_on_migration_only[of initialOrchestrator "''SIG1''" exampleHost exampleConfig
          "exampleResponses (exampleTransaction [''Program log: Instruction: Migrate''])"
          "exampleTransaction [''Program log: Instruction: Migrate'']" notMigration
          0 "exampleMessage ''SIG1''"]
        ledger_entry_on_migration_only[of initialOrchestrator "''SIG1''" exampleHost exampleConfig
          "exampleResponses (exampleTransaction
             [''Program log: Instruction: Migrate'', ''Program log: Instruction: CollectCreatorFee''])"
          "exampleTransaction
             [''Program log: Instruction: Migrate'', ''Program log: Instruction: CollectCreatorFee'']"
          notMigration 0 "exampleMessage ''SIG1''"]
        detect_migrate[of exampleHost exampleConfig "''SIG1''"]
        detect_fee[of exampleHost exampleConfig "''SIG1''"]
        truthy_exampleTransaction
  by (simp add: initialOrchestrator_def exampleResponses_def notMigration_def)

text \<open>
  Claim C3 as stated fails on the scenario of a migration marker together with a
  fee-collection marker: the transaction is fetched and classified as no migration, and
  its signature is not in the ledger afterwards.
\<close>

theorem negative_classification_counterexample:
  "''SIG1'' \<notin> set (processedSignatures (fetchAndProcessTransaction exampleHost exampleConfig
        (exampleResponses (exampleTransaction
           [''Program log: Instruction: Migrate'', ''Program log: Instruction: CollectCreatorFee'']))
        ''SIG1'' initialOrchestrator))"
  using detect_fee[of exampleHost exampleConfig "''SIG1''"] truthy_exampleTransaction
  by (simp add: fetchAndProcessTransaction_def initialOrchestrator_def exampleResponses_def
        notMigration_def Let_def)

text \<open>
  Claim C4, as the code has it. A signature enqueued twice before it is processed, and
  dequeued twice while fresh, is fetched and classified once when the first processing
  classifies it as a migration, and fetched twice otherwise. A signature that the ledger
  holds is enqueued again by the stream callback, and skipped at dequeue: no fetch, no
  classification, no change of the ledger.
\<close>

theorem dedup_by_ledger:
  "(pendingFetches s = [] \<and> distinct (processedSignatures s) \<and> sig \<notin> set (processedSignatures s)
     \<and> messageSignature m1 = Some (sig, []) \<and> messageSignature m2 = Some (sig, [])
     \<and> now1 - t1 \<le> 30000 \<and> now2 - t2 \<le> 30000 \<longrightarrow>
       pendingFetches (onTransaction h t2 m2 (onTransaction h t1 m1 s)) = [(sig, t1), (sig, t2)]
     \<and> fetched (queuePass h cfg now2 now2' env2 (queuePass h cfg now1 now1' env1
                  (onTransaction h t2 m2 (onTransaction h t1 m1 s))))
        = (if \<exists>tx d. getParsedTransaction env1 = Returns tx \<and> truthy tx
                \<and> detectMigrationFromTransaction h cfg tx sig = Some d \<and> isMigration d
           then fetched s @ [sig] else fetched s @ [sig, sig])
     \<and> ((\<exists>tx d. getParsedTransaction env1 = Returns tx \<and> truthy tx
                \<and> detectMigrationFromTransaction h cfg tx sig = Some d \<and> isMigration d) \<longrightarrow>
         classified (queuePass h cfg now2 now2' env2 (queuePass h cfg now1 now1' env1
                  (onTransaction h t2 m2 (onTransaction h t1 m1 s))))
         = classified s @ [sig]))
   \<and> (sig \<in> set (processedSignatures s) \<and> messageSignature m1 = Some (sig, []) \<longrightarrow>
       pendingFetches (onTransaction h t1 m1 s) = pendingFetches s @ [(sig, t1)]
     \<and> (pendingFetches s = [] \<longrightarrow>
          fetched (queuePass h cfg now1 now1' env1 (onTransaction h t1 m1 s)) = fetched s
        \<and> classified (queuePass h cfg now1 now1' env1 (onTransaction h t1 m1 s)) = classified s
        \<and> processedSignatures (queuePass h cfg now1 now1' env1 (onTransaction h t1 m1 s))
            = processedSignatures s))"
proof (intro conjI impI)
  assume a: "pendingFetches s = [] \<and> distinct (processedSignatures s) \<and> sig \<notin> set (processedSignatures s)
     \<and> messageSignature m1 = Some (sig, []) \<and> messageSignature m2 = Some (sig, [])
     \<and> now1 - t1 \<le> 30000 \<and> now2 - t2 \<le> 30000"
  let ?q = "onTransaction h t2 m2 (onTransaction h t1 m1 s)"
  show q: "pendingFetches ?q = [(sig, t1), (sig, t2)]"
    using a by (simp add: onTransaction_enqueue)
  let ?s0 = "?q\<lparr>pendingFetches := [(sig, t2)], lastFetchTime := now1'\<rparr>"
  let ?s1 = "queuePass h cfg now1 now1' env1 ?q"
  have s1: "?s1 = fetchAndProcessTransaction h cfg env1 sig ?s0"
    using a q by (simp add: queuePass_def)
  have l0: "processedSignatures ?s0 = processedSignatures s" by simp
  have f1: "fetched ?s1 = fetched s @ [sig]"
    using a by (simp add: s1 fetched_after)
  have q1: "pendingFetches ?s1 = [(sig, t2)]" by (simp add: s1)
  let ?s1' = "?s1\<lparr>pendingFetches := [], lastFetchTime := now2'\<rparr>"
  have s2: "queuePass h cfg now2 now2' env2 ?s1 = fetchAndProcessTransaction h cfg env2 sig ?s1'"
    using a q1 by (simp add: queuePass_def)
  show "fetched (queuePass h cfg now2 now2' env2 ?s1)
        = (if \<exists>tx d. getParsedTransaction env1 = Returns tx \<and> truthy tx
                \<and> detectMigrationFromTransaction h cfg tx sig = Some d \<and> isMigration d
           then fetched s @ [sig] else fetched s @ [sig, sig])"
  proof (cases "\<exists>tx d. getParsedTransaction env1 = Returns tx \<and> truthy tx
                \<and> detectMigrationFromTransaction h cfg tx sig = Some d \<and> isMigration d")
    case True
    then obtain tx d where p: "getParsedTransaction env1 = Returns tx" "truthy tx"
      "detectMigrationFromTransaction h cfg tx sig = Some d" "isMigration d" by blast
    have notin: "sig \<notin> set (processedSignatures ?s0)" using a by simp
    from a have "sig \<in> set (cleanupProcessed (processedSignatures ?s0 @ [sig]))"
      unfolding l0 by (intro newest_survives) simp_all
    with ledger_positive[OF p notin]
    have "sig \<in> set (processedSignatures ?s1)" unfolding s1 by auto
    then have "sig \<in> set (processedSignatures ?s1')" by simp
    then have "fetchAndProcessTransaction h cfg env2 sig ?s1' = ?s1'" by (rule traces_skip)
    then show ?thesis using True f1 by (simp add: s2)
  next
    case False
    then have "processedSignatures ?s1 = processedSignatures ?s0"
      unfolding s1 by (rule ledger_not_positive)
    then have "sig \<notin> set (processedSignatures ?s1')" using a by simp
    then have "fetched (fetchAndProcessTransaction h cfg env2 sig ?s1') = fetched ?s1' @ [sig]"
      by (rule fetched_after)
    then show ?thesis using False f1 by (simp add: s2)
  qed
  assume "\<exists>tx d. getParsedTransaction env1 = Returns tx \<and> truthy tx
                \<and> detectMigrationFromTransaction h cfg tx sig = Some d \<and> isMigration d"
  then obtain tx d where p: "getParsedTransaction env1 = Returns tx" "truthy tx"
      "detectMigrationFromTransaction h cfg tx sig = Some d" "isMigration d" by blast
  have notin: "sig \<notin> set (processedSignatures ?s0)" using a by simp
  have c1: "classified ?s1 = classified s @ [sig]"
    unfolding s1 using classified_after[OF notin p(1,2), of h cfg] by simp
  from a have "sig \<in> set (cleanupProcessed (processedSignatures ?s0 @ [sig]))"
    unfolding l0 by (intro newest_survives) simp_all
  with ledger_positive[OF p notin]
  have "sig \<in> set (processedSignatures ?s1)" unfolding s1 by auto
  then have "sig \<in> set (processedSignatures ?s1')" by simp
  then have "fetchAndProcessTransaction h cfg env2 sig ?s1' = ?s1'" by (rule traces_skip)
  then show "classified (queuePass h cfg now2 now2' env2 ?s1) = classified s @ [sig]"
    using c1 by (simp add: s2)
next
  assume a: "sig \<in> set (processedSignatures s) \<and> messageSignature m1 = Some (sig, [])"
  then show e: "pendingFetches (onTransaction h t1 m1 s) = pendingFetches s @ [(sig, t1)]"
    by (simp add: onTransaction_enqueue)
  assume b: "pendingFetches s = []"
  have "queuePass h cfg now1 now1' env1 (onTransaction h t1 m1 s)
        = (if now1 - t1 > 30000 then (onTransaction h t1 m1 s)\<lparr>pendingFetches := []\<rparr>
           else (onTransaction h t1 m1 s)\<lparr>pendingFetches := [], lastFetchTime := now1'\<rparr>)"
    using a b e by (simp add: queuePass_def traces_skip)
  then show "fetched (queuePass h cfg now1 now1' env1 (onTransaction h t1 m1 s)) = fetched s"
    "classified (queuePass h cfg now1 now1' env1 (onTransaction h t1 m1 s)) = classified s"
    "processedSignatures (queuePass h cfg now1 now1' env1 (onTransaction h t1 m1 s))
            = processedSignatures s"
    by simp_all
qed


lemmas example_run_defs = queuePass_def onTransaction_def processFetchQueue_def
  fetchAndProcessTransaction_def initialOrchestrator_def exampleResponses_def sendAlert_def
  setAdd_def cleanupProcessed_def notMigration_def Let_def

theorem dedup_by_ledger_witness:
  "pendingFetches (onTransaction exampleHost 20 (exampleMessage ''SIG1'')
      (onTransaction exampleHost 10 (exampleMessage ''SIG1'') initialOrchestrator))
     = [(''SIG1'', 10), (''SIG1'', 20)]
   \<and> fetched (queuePass exampleHost exampleConfig 200 200
        (exampleResponses (exampleTransaction [''Program log: Instruction: Migrate'']))
        (queuePass exampleHost exampleConfig 100 100
          (exampleResponses (exampleTransaction [''Program log: Instruction: Migrate'']))
          (onTransaction exampleHost 20 (exampleMessage ''SIG1'')
            (onTransaction exampleHost 10 (exampleMessage ''SIG1'') initialOrchestrator))))
     = [''SIG1'']
   \<and> classified (queuePass exampleHost exampleConfig 200 200
        (exampleResponses (exampleTransaction [''Program log: Instruction: Migrate'']))
        (queuePass exampleHost exampleConfig 100 100
          (exampleResponses (exampleTransaction [''Program log: Instruction: Migrate'']))
          (onTransaction exampleHost 20 (exampleMessage ''SIG1'')
            (onTransaction exampleHost 10 (exampleMessage ''SIG1'') initialOrchestrator))))
     = [''SIG1'']
   \<and> pendingFetches (onTransaction exampleHost 10 (exampleMessage ''SIG1'')
        (initialOrchestrator\<lparr>processedSignatures := [''SIG1'']\<rparr>)) = [(''SIG1'', 10)]
   \<and> fetched (queuePass exampleHost exampleConfig 100 100
        (exampleResponses (exampleTransaction [''Program log: Instruction: Migrate'']))
        (onTransaction exampleHost 10 (exampleMessage ''SIG1'')
          (initialOrchestrator\<lparr>processedSignatures := [''SIG1'']\<rparr>))) = []"
  using dedup_by_ledger[of initialOrchestrator "''SIG1''" "exampleMessage ''SIG1''"
          "exampleMessage ''SIG1''" 100 10 200 20 exampleHost exampleConfig 200
          "exampleResponses (exampleTransaction [''Program log: Instruction: Migrate''])"
          100 "exampleResponses (exampleTransaction [''Program log: Instruction: Migrate''])"]
        dedup_by_ledger[of "initialOrchestrator\<lparr>processedSignatures := [''SIG1'']\<rparr>"
          "''SIG1''" "exampleMessage ''SIG1''"
          "exampleMessage ''SIG1''" 100 10 200 20 exampleHost exampleConfig 200
          "exampleResponses (exampleTransaction [''Program log: Instruction: Migrate''])"
          100 "exampleResponses (exampleTransaction [''Program log: Instruction: Migrate''])"]
        exampleMessage_signature
        detect_migrate[of exampleHost exampleConfig "''SIG1''"] truthy_exampleTransaction
  by (simp add: initialOrchestrator_def exampleResponses_def)

text \<open>
  Claim C4 as stated fails: a signature whose transaction is no migration, enqueued twice,
  is fetched and classified twice; and a signature in the ledger is enqueued again.
\<close>

theorem dedup_by_ledger_counterexample:
  "fetched (queuePass exampleHost exampleConfig 200 200
        (exampleResponses (exampleTransaction [''Program log: Instruction: Buy'']))
        (queuePass exampleHost exampleConfig 100 100
          (exampleResponses (exampleTransaction [''Program log: Instruction: Buy'']))
          (onTransaction exampleHost 20 (exampleMessage ''SIG1'')
            (onTransaction exampleHost 10 (exampleMessage ''SIG1'') initialOrchestrator))))
     = [''SIG1'', ''SIG1'']
   \<and> classified (queuePass exampleHost exampleConfig 200 200
        (exampleResponses (exampleTransaction [''Program log: Instruction: Buy'']))
        (queuePass exampleHost exampleConfig 100 100
          (exampleResponses (exampleTransaction [''Program log: Instruction: Buy'']))
          (onTransaction exampleHost 20 (exampleMessage ''SIG1'')
            (onTransaction exampleHost 10 (exampleMessage ''SIG1'') initialOrchestrator))))
     = [''SIG1'', ''SIG1'']
   \<and> pendingFetches (onTransaction exampleHost 10 (exampleMessage ''SIG1'')
        (initialOrchestrator\<lparr>processedSignatures := [''SIG1'']\<rparr>)) = [(''SIG1'', 10)]"
proof -
  have d: "detectMigrationFromTransaction exampleHost exampleConfig
             (exampleTransaction [''Program log: Instruction: Buy'']) ''SIG1'' = Some notMigration"
    by (simp add: exampleTransaction_def exampleRecord_def exampleMint_def detector_defs js_defs Let_def)
  show ?thesis
    using d exampleMessage_signature truthy_exampleTransaction
    by (simp add: example_run_defs)
qed

section \<open>The detector on well-formed records\<close>

lemma wfArrayOf_elements:
  "wfArrayOf P v \<Longrightarrow> (if truthy v then v else JArr []) = JArr (elements v) \<and> list_all P (elements v)"
  by (cases v) (auto simp: wfArrayOf_def elements_def truthy_def)

lemma includesM_string: "isString x \<Longrightarrow> includesM x n = Some (case x of JStr s \<Rightarrow> includesStr s n | _ \<Rightarrow> False)"
  by (cases x) (auto simp: isString_def includesM_def)

lemma strings_set: "list_all isString xs \<Longrightarrow> (\<exists>x\<in>set xs. (case x of JStr s \<Rightarrow> P s | _ \<Rightarrow> False)) = (\<exists>l\<in>set (strings (JArr xs)). P l)"
  by (induction xs) (auto simp: strings_def elements_def isString_def split: jsval.splits)

lemma hasMigrateLog_wf:
  assumes "list_all isString xs"
  shows "hasMigrateLog (JArr xs)
         = Some (\<exists>l\<in>set (strings (JArr xs)). includesStr l ''Instruction: Migrate'')"
proof -
  have "someM (\<lambda>log. includesM log ''Instruction: Migrate'') xs
        = Some (\<exists>x\<in>set xs. case x of JStr s \<Rightarrow> includesStr s ''Instruction: Migrate'' | _ \<Rightarrow> False)"
    using assms by (intro someM_pure) (auto simp: includesM_string list_all_iff)
  then show ?thesis using assms
    by (simp add: hasMigrateLog_def arraySome_def strings_set)
qed

lemma isExclusionLog_string:
  "isExclusionLog (JStr s) = Some (isExclusionLine s)"
  by (simp add: isExclusionLog_def isExclusionLine_def includesM_def)

lemma hasCollectFee_wf:
  assumes "list_all isString xs"
  shows "hasCollectFee (JArr xs) = Some (\<exists>l\<in>set (strings (JArr xs)). isExclusionLine l)"
proof -
  have "someM isExclusionLog xs
        = Some (\<exists>x\<in>set xs. case x of JStr s \<Rightarrow> isExclusionLine s | _ \<Rightarrow> False)"
    using assms
    by (intro someM_pure) (auto simp: list_all_iff isString_def isExclusionLog_string split: jsval.splits)
  then show ?thesis using assms
    by (simp add: hasCollectFee_def arraySome_def strings_set)
qed

lemma getProp_obj [simp]: "getProp (JObj kvs) k = Some (field (JObj kvs) k)"
  by (simp add: getProp_def field_def)

lemma optProp_field [simp]: "optProp v k = Some (field v k)"
  by (cases v) (simp_all add: optProp_def getProp_def field_def)

lemma getProp_truthy: "truthy v \<Longrightarrow> getProp v k = Some (field v k)"
  by (cases v) (simp_all add: getProp_def field_def truthy_def)

lemma isMigrateIx_wf:
  assumes "wfInstruction ix"
  shows "isMigrateIx cfg ix = Some (migrateInstruction cfg ix)"
proof (cases ix)
  case (JObj kvs)
  with assms have "case field (JObj kvs) ''data'' of
      JUndefined \<Rightarrow> True | JNull \<Rightarrow> True | JStr s \<Rightarrow> True | JArr xs \<Rightarrow> True | _ \<Rightarrow> False"
    by (simp add: wfInstruction_def)
  then have "(case field (JObj kvs) ''data'' of JUndefined \<Rightarrow> Some False | JNull \<Rightarrow> Some False
          | _ \<Rightarrow> includesM (field (JObj kvs) ''data'') ''migrate'')
        = Some (case field (JObj kvs) ''data'' of
             JStr s \<Rightarrow> includesStr s ''migrate''
           | JArr xs \<Rightarrow> JStr ''migrate'' \<in> set xs
           | _ \<Rightarrow> False)"
    by (cases "field (JObj kvs) ''data''") (auto simp: includesM_def)
  then show ?thesis unfolding JObj isMigrateIx_def migrateInstruction_def by auto
qed (use assms in \<open>simp_all add: wfInstruction_def\<close>)

lemma hasMigrateInstruction_wf:
  assumes "list_all isString logs" "list_all wfInstruction ixs"
  shows "hasMigrateInstruction cfg (JArr ixs) (JArr logs)
         = Some ((\<exists>l\<in>set (strings (JArr logs)). includesStr l ''Instruction: Migrate'')
                 \<or> (\<exists>ix\<in>set ixs. migrateInstruction cfg ix))"
proof -
  have "someM (isMigrateIx cfg) ixs = Some (\<exists>ix\<in>set ixs. migrateInstruction cfg ix)"
    using assms(2) by (intro someM_pure) (auto simp: list_all_iff isMigrateIx_wf)
  then show ?thesis using assms(1)
    by (simp add: hasMigrateInstruction_def hasMigrateLog_wf arraySome_def)
qed

lemma accountKeyString_wf:
  assumes "wfAccountKey key"
  shows "\<exists>s. accountKeyString h key = Some (JStr s)"
proof (cases key)
  case (JStr s)
  then show ?thesis by (simp add: accountKeyString_def)
next
  case (JPublicKey s)
  then show ?thesis by (simp add: accountKeyString_def getProp_def truthy_def)
next
  case (JObj kvs)
  with assms have nt: "''toString'' \<notin> fst ` set kvs"
    and pk: "case field (JObj kvs) ''pubkey'' of
            JUndefined \<Rightarrow> True | JNull \<Rightarrow> True | JStr s \<Rightarrow> True | JPublicKey s \<Rightarrow> True
          | _ \<Rightarrow> False"
    by (simp_all add: wfAccountKey_def)
  show ?thesis
    unfolding JObj accountKeyString_def using nt pk
    by (cases "field (JObj kvs) ''pubkey''") (auto simp: truthy_def)
qed (use assms in \<open>simp_all add: wfAccountKey_def\<close>)

lemma accountKeyText_wf:
  "wfAccountKey key \<Longrightarrow> accountKeyString h key = Some (accountKeyText h key) \<and> isString (accountKeyText h key)"
  using accountKeyString_wf[of key h] by (auto simp: accountKeyText_def isString_def)

lemma mapM_accountKeys:
  "list_all wfAccountKey ks \<Longrightarrow> mapM (accountKeyString h) ks = Some (map (accountKeyText h) ks)"
  by (induction ks) (auto simp: accountKeyText_wf)

lemma instructionMint_pure:
  "instructionMint (JObj kvs) = Some (payloadMint (JObj kvs))"
  by (simp add: instructionMint_def payloadMint_def Let_def)

lemma scanAccounts_step:
  assumes "wfAccountIndex a"
  shows "scanAccounts h keys (a # accs)
         = (case reached h keys a of
              Some k \<Rightarrow> if isPumpAddress k then Some (Some k) else scanAccounts h keys accs
            | None \<Rightarrow> scanAccounts h keys accs)"
proof (cases a)
  case (JNum n)
  then show ?thesis by (simp add: reached_def)
next
  case JNaN
  then show ?thesis by (simp add: reached_def)
next
  case (JStr s)
  then show ?thesis by (cases "parseInt h s") (simp_all add: reached_def)
next
  case (JPublicKey s)
  then show ?thesis by (cases "parseInt h s") (simp_all add: reached_def)
qed (use assms in \<open>simp_all add: wfAccountIndex_def\<close>)

lemma scanAccounts_wf:
  "list_all wfAccountIndex accs \<Longrightarrow>
   scanAccounts h keys accs = Some (find isPumpAddress (List.map_filter (reached h keys) accs))"
proof (induction accs)
  case Nil
  then show ?case by (simp add: List.map_filter_simps)
next
  case (Cons a accs)
  then have wa: "wfAccountIndex a" and ih: "scanAccounts h keys accs
      = Some (find isPumpAddress (List.map_filter (reached h keys) accs))" by simp_all
  show ?case
    by (cases "reached h keys a")
       (simp_all add: scanAccounts_step[OF wa] ih List.map_filter_simps del: scanAccounts.simps)
qed

lemma reached_in_keys: "reached h keys a = Some k \<Longrightarrow> k \<in> set keys"
  by (auto simp: reached_def split: option.splits if_splits)

lemma indexed_dead:
  assumes "find isPumpAddress keys = None"
  shows "find isPumpAddress (List.map_filter (reached h keys) accs) = None"
proof -
  have "\<And>k. k \<in> set (List.map_filter (reached h keys) accs) \<Longrightarrow> k \<in> set keys"
    by (auto simp: List.map_filter_def dest: reached_in_keys)
  with assms show ?thesis by (auto simp: find_None_iff)
qed

lemma firstMatch_indexed_dead:
  "find isPumpAddress keys = None \<Longrightarrow> firstMatch (indexedPumpAddress h keys) ixs = None"
  by (induction ixs) (simp_all add: indexedPumpAddress_def indexed_dead)

lemma scanInstructions_wf:
  assumes "find isPumpAddress keys = None"
  shows "list_all wfInstruction ixs \<Longrightarrow>
         scanInstructions h keys ixs = Some (firstMatch payloadMint ixs)"
proof (induction ixs)
  case Nil
  then show ?case by simp
next
  case (Cons ix ixs)
  then have w: "wfInstruction ix" and ih: "scanInstructions h keys ixs = Some (firstMatch payloadMint ixs)"
    by simp_all
  from w obtain kvs where ix: "ix = JObj kvs" by (cases ix) (simp_all add: wfInstruction_def)
  have acc: "(case field (JObj kvs) ''accounts'' of
                  JArr accs \<Rightarrow> scanAccounts h keys accs
                | _ \<Rightarrow> Some None) = Some None"
  proof (cases "field (JObj kvs) ''accounts''")
    case (JArr accs)
    with w ix have "list_all wfAccountIndex accs" by (simp add: wfInstruction_def)
    then show ?thesis using JArr assms by (simp add: scanAccounts_wf indexed_dead)
  qed simp_all
  have rest: "inOp ''accounts'' (JObj kvs) \<bind>
          (\<lambda>hasAccounts. (if hasAccounts then getProp (JObj kvs) ''accounts'' else Some JUndefined) \<bind>
             (\<lambda>accounts. (case accounts of JArr accs \<Rightarrow> scanAccounts h keys accs | _ \<Rightarrow> Some None) \<bind>
                (\<lambda>r'. case r' of Some v \<Rightarrow> Some (Some v) | None \<Rightarrow> scanInstructions h keys ixs)))
        = scanInstructions h keys ixs"
    by (cases "''accounts'' \<in> fst ` set kvs") (simp_all add: inOp_def acc)
  have step: "scanInstructions h keys (JObj kvs # ixs)
        = (case payloadMint (JObj kvs) of Some v \<Rightarrow> Some (Some v) | None \<Rightarrow> scanInstructions h keys ixs)"
    by (cases "payloadMint (JObj kvs)") (simp_all add: instructionMint_pure rest del: getProp_obj)
  show ?case
    unfolding ix step by (cases "payloadMint (JObj kvs)") (simp_all add: ih)
qed


lemma extractTokenMint_wf:
  assumes "wfArrayOf wfAccountKey (field (field tx ''message'') ''accountKeys'')"
    "list_all wfInstruction ixs"
  shows "extractTokenMint h cfg tx (JArr ixs)
         = Some (mintByPriority payloadMint h cfg (accountKeyTexts h tx) ixs)"
proof -
  let ?ak = "field (field tx ''message'') ''accountKeys''"
  let ?keys = "accountKeyTexts h tx"
  from wfArrayOf_elements[OF assms(1)]
  have ak: "(if truthy ?ak then ?ak else JArr []) = JArr (elements ?ak)"
    and wk: "list_all wfAccountKey (elements ?ak)" by simp_all
  have m: "arrayMap (if truthy ?ak then ?ak else JArr []) (accountKeyString h) = Some ?keys"
    unfolding ak by (simp add: arrayMap_def mapM_accountKeys[OF wk] accountKeyTexts_def)
  show ?thesis
  proof (cases "find isPumpAddress ?keys")
    case (Some a)
    then show ?thesis
      unfolding extractTokenMint_def by (simp add: m mintByPriority_def)
  next
    case None
    have s: "scanInstructions h ?keys ixs = Some (firstMatch payloadMint ixs)"
      using None assms(2) by (rule scanInstructions_wf)
    have b: "firstMatch (indexedPumpAddress h ?keys) ixs = None"
      using None by (rule firstMatch_indexed_dead)
    show ?thesis
      unfolding extractTokenMint_def
      by (cases "firstMatch payloadMint ixs"; cases "find (isFallbackAddress cfg) ?keys")
         (simp_all add: m None s b mintByPriority_def iterate_def)
  qed
qed

lemma wfMeta_logs: "wfMeta meta \<Longrightarrow> wfArrayOf isString (field meta ''logMessages'')"
  by (cases meta) (simp_all add: wfMeta_def wfArrayOf_def field_def getProp_def truthy_def)

lemma strings_elements [simp]: "strings (JArr (elements v)) = strings v"
  by (simp add: strings_def elements_def)

lemma detect_wf:
  assumes "wfTransactionRecord tx"
  shows "detectMigrationFromTransaction h cfg tx sig
         = Some (if classifiedMigration cfg tx
                 then \<lparr>isMigration = True,
                       tokenMint = mintByPriority payloadMint h cfg
                          (accountKeyTexts h (field tx ''transaction'')) (topInstructions tx),
                       signature = Some sig\<rparr>
                 else notMigration)"
proof -
  from assms obtain kvs where tx: "tx = JObj kvs"
    by (cases tx) (simp_all add: wfTransactionRecord_def)
  let ?meta = "field tx ''meta''"
  let ?tr = "field tx ''transaction''"
  let ?msg = "field ?tr ''message''"
  let ?ins = "field ?msg ''instructions''"
  let ?lm = "field ?meta ''logMessages''"
  from assms tx have wm: "wfMeta ?meta" by (simp add: wfTransactionRecord_def)
  from assms tx obtain tkvs where tr: "?tr = JObj tkvs"
    by (cases ?tr) (simp_all add: wfTransactionRecord_def)
  from assms tx tr have wmsg: "wfMessage ?msg" by (simp add: wfTransactionRecord_def)
  then obtain mkvs where msg: "?msg = JObj mkvs" by (cases ?msg) (simp_all add: wfMessage_def)
  from wmsg msg have wi: "wfArrayOf wfInstruction ?ins"
    and wk: "wfArrayOf wfAccountKey (field ?msg ''accountKeys'')"
    by (simp_all add: wfMessage_def)
  from wfArrayOf_elements[OF wi] have ins: "(if truthy ?ins then ?ins else JArr []) = JArr (elements ?ins)"
    and wixs: "list_all wfInstruction (elements ?ins)" by simp_all
  from wfArrayOf_elements[OF wfMeta_logs[OF wm]]
  have lm: "(if truthy ?lm then ?lm else JArr []) = JArr (elements ?lm)"
    and wl: "list_all isString (elements ?lm)" by simp_all
  have g1: "getProp tx ''meta'' = Some ?meta" by (simp add: tx)
  have g3: "getProp tx ''transaction'' = Some ?tr" by (simp add: tx)
  have g4: "getProp ?tr ''message'' = Some ?msg" by (simp add: tr)
  have g5: "getProp ?msg ''instructions'' = Some ?ins" by (simp add: msg)
  have ttx: "truthy tx" by (simp add: tx truthy_def)
  show ?thesis
  proof (cases "truthy ?meta")
    case False
    then show ?thesis
      unfolding detectMigrationFromTransaction_def
      by (simp add: ttx g1 classifiedMigration_def)
  next
    case True
    then have g2: "getProp ?meta ''err'' = Some (field ?meta ''err'')"
      and g6: "getProp ?meta ''logMessages'' = Some ?lm"
      by (simp_all add: getProp_truthy)
    show ?thesis
    proof (cases "truthy (field ?meta ''err'')")
      case T2: True
      then show ?thesis
        unfolding detectMigrationFromTransaction_def
        by (simp add: ttx g1 g2 True classifiedMigration_def)
    next
      case F2: False
      have hm: "hasMigrateInstruction cfg (JArr (elements ?ins)) (JArr (elements ?lm))
          = Some ((\<exists>l\<in>set (logLines tx). includesStr l ''Instruction: Migrate'')
                 \<or> (\<exists>ix\<in>set (topInstructions tx). migrateInstruction cfg ix))"
        using hasMigrateInstruction_wf[OF wl wixs, of cfg]
        by (simp add: logLines_def topInstructions_def)
      have hf: "hasCollectFee (JArr (elements ?lm)) = Some (\<exists>l\<in>set (logLines tx). isExclusionLine l)"
        using hasCollectFee_wf[OF wl] by (simp add: logLines_def)
      have ex: "extractTokenMint h cfg ?tr (JArr (elements ?ins))
          = Some (mintByPriority payloadMint h cfg (accountKeyTexts h ?tr) (topInstructions tx))"
        using extractTokenMint_wf[OF wk wixs, of h cfg] by (simp add: topInstructions_def)
      show ?thesis
        unfolding detectMigrationFromTransaction_def Let_def
        by (auto simp add: ttx g1 g2 g3 g4 g5 g6 True F2 ins lm hm hf ex classifiedMigration_def
                 simp del: getProp_obj)
    qed
  qed
qed

lemma exampleRecord_wf:
  "list_all wfAccountKey keys \<Longrightarrow> list_all wfInstruction ixs \<Longrightarrow>
   wfTransactionRecord (exampleRecord logs keys ixs)"
  by (simp add: exampleRecord_def wfTransactionRecord_def wfMeta_def wfMessage_def wfArrayOf_def
        field_def getProp_def list_all_iff isString_def)

lemma exampleRecord_views:
  "logLines (exampleRecord logs keys ixs) = logs"
  "topInstructions (exampleRecord logs keys ixs) = ixs"
  "truthy (field (exampleRecord logs keys ixs) ''meta'')"
  "\<not> truthy (field (field (exampleRecord logs keys ixs) ''meta'') ''err'')"
  "elements (field (field (field (exampleRecord logs keys ixs) ''transaction'') ''message'') ''accountKeys'') = keys"
proof -
  have "strings (JArr (map JStr logs)) = logs"
    by (induction logs) (simp_all add: strings_def elements_def)
  then show "logLines (exampleRecord logs keys ixs) = logs"
    by (simp add: logLines_def exampleRecord_def field_def getProp_def)
qed (simp_all add: topInstructions_def exampleRecord_def field_def getProp_def elements_def truthy_def)

lemma logLines_without_meta: "\<not> truthy (field tx ''meta'') \<Longrightarrow> logLines tx = []"
  by (cases "field tx ''meta''")
     (simp_all add: logLines_def strings_def elements_def field_def getProp_def truthy_def)

lemma migrateInstruction_publicKey:
  "isPublicKey (field ix ''programId'') \<Longrightarrow> \<not> migrateInstruction cfg ix"
  by (cases "field ix ''programId''") (simp_all add: isPublicKey_def migrateInstruction_def truthy_def)

lemma watchedProgramInstruction_wf: "wfInstruction watchedProgramInstruction"
  by (simp add: watchedProgramInstruction_def wfInstruction_def field_def getProp_def)

lemma watchedProgramInstruction_typed:
  "isPublicKey (field watchedProgramInstruction ''programId'')"
  by (simp add: watchedProgramInstruction_def isPublicKey_def field_def getProp_def)

text \<open>
  Claim C1. On every well-formed record without an execution error in which the
  \<open>programId\<close> of every top-level instruction is a \<open>PublicKey\<close>, as in every record that
  \<open>getParsedTransaction\<close> returns, the detector returns, and it classifies the record as a
  migration exactly when a log line contains the marker \<open>Instruction: Migrate\<close> and no log
  line contains one of the three exclusion markers. The instruction test of the detector
  compares the \<open>programId\<close> with the configured address by \<open>===\<close>, which no \<open>PublicKey\<close>
  satisfies. An exclusion marker forces a negative classification.
\<close>

theorem classification_rule:
  assumes "wfTransactionRecord tx"
    and "\<forall>ix\<in>set (topInstructions tx). isPublicKey (field ix ''programId'')"
    and "\<not> truthy (field (field tx ''meta'') ''err'')"
  shows "\<exists>d. detectMigrationFromTransaction h cfg tx sig = Some d \<and>
          (isMigration d \<longleftrightarrow>
             (\<exists>l\<in>set (logLines tx). includesStr l ''Instruction: Migrate'')
             \<and> \<not> (\<exists>l\<in>set (logLines tx).
                     includesStr l ''Instruction: CollectCreatorFee''
                   \<or> includesStr l ''Instruction: MigrateBondingCurveCreator''
                   \<or> includesStr l ''Instruction: DistributeCreatorFees''))"
proof -
  have ix: "\<not> (\<exists>ix\<in>set (topInstructions tx). migrateInstruction cfg ix)"
    using assms(2) by (auto dest: migrateInstruction_publicKey)
  have meta: "truthy (field tx ''meta'')" if l: "l \<in> set (logLines tx)" for l
  proof (rule ccontr)
    assume "\<not> truthy (field tx ''meta'')"
    then have "logLines tx = []" by (rule logLines_without_meta)
    with l show False by simp
  qed
  have "classifiedMigration cfg tx \<longleftrightarrow>
          (\<exists>l\<in>set (logLines tx). includesStr l ''Instruction: Migrate'')
          \<and> \<not> (\<exists>l\<in>set (logLines tx). isExclusionLine l)"
    unfolding classifiedMigration_def using ix assms(3) meta by blast
  then show ?thesis
    using detect_wf[OF assms(1), of h cfg sig]
    by (auto simp: isExclusionLine_def notMigration_def)
qed

theorem classification_rule_witness:
  "map_option isMigration (detectMigrationFromTransaction exampleHost exampleConfig
      (exampleRecord [''Program log: Instruction: Migrate''] [JStr exampleMint]
         [watchedProgramInstruction]) ''SIG1'') = Some True
   \<and> map_option isMigration (detectMigrationFromTransaction exampleHost exampleConfig
      (exampleRecord [''Program log: Instruction: Migrate'',
                      ''Program log: Instruction: CollectCreatorFee''] [JStr exampleMint]
         [watchedProgramInstruction]) ''SIG1'')
     = Some False
   \<and> map_option isMigration (detectMigrationFromTransaction exampleHost exampleConfig
      (exampleRecord [''Program log: Instruction: Buy''] [JStr exampleMint]
         [watchedProgramInstruction]) ''SIG1'') = Some False"
proof -
  have w: "wfTransactionRecord (exampleRecord logs [JStr exampleMint] [watchedProgramInstruction])"
    for logs
    by (rule exampleRecord_wf) (simp_all add: wfAccountKey_def watchedProgramInstruction_wf)
  have t: "\<forall>ix\<in>set (topInstructions
              (exampleRecord logs [JStr exampleMint] [watchedProgramInstruction])).
             isPublicKey (field ix ''programId'')" for logs
    by (simp add: exampleRecord_views watchedProgramInstruction_typed)
  have e: "\<not> truthy (field (field
              (exampleRecord logs [JStr exampleMint] [watchedProgramInstruction]) ''meta'') ''err'')"
    for logs
    by (rule exampleRecord_views)
  show ?thesis
    using classification_rule[OF w t e, of exampleHost exampleConfig
            "[''Program log: Instruction: Migrate'']" "''SIG1''"]
          classification_rule[OF w t e, of exampleHost exampleConfig
            "[''Program log: Instruction: Migrate'', ''Program log: Instruction: CollectCreatorFee'']"
            "''SIG1''"]
          classification_rule[OF w t e, of exampleHost exampleConfig
            "[''Program log: Instruction: Buy'']" "''SIG1''"]
    by (auto simp: exampleRecord_views)
qed

text \<open>
  Claim C2, as the code has it. For every well-formed record that is classified as a
  migration, the token mint is the first match in the order of the specification: the
  first vanity-suffix address of the account list; then a vanity-suffix address reached
  through the account indices of an instruction; then the payload value of an
  instruction, which is its mint field, or its token-mint field only when the payload's
  type is \<open>transfer\<close> or \<open>transferChecked\<close>; then the first 44-character address that is
  none of the four fixed program addresses and neither configured program address; else
  it is absent. In particular a vanity-suffix address of the account list wins over
  whatever the instructions reach.
\<close>

theorem mint_priority_order:
  assumes "wfTransactionRecord tx"
  shows "\<exists>d. detectMigrationFromTransaction h cfg tx sig = Some d \<and>
          (isMigration d \<longrightarrow>
             tokenMint d = mintByPriority payloadMint h cfg
                             (accountKeyTexts h (field tx ''transaction'')) (topInstructions tx)
           \<and> (\<forall>account. find isPumpAddress (accountKeyTexts h (field tx ''transaction''))
                            = Some account \<longrightarrow> tokenMint d = account))"
  using detect_wf[OF assms, of h cfg sig]
  by (auto simp: notMigration_def mintByPriority_def)

lemma example_instructions_wf: "wfInstruction mintToInstruction" "wfInstruction indexInstruction"
  by (simp_all add: mintToInstruction_def indexInstruction_def wfInstruction_def field_def
        getProp_def wfAccountIndex_def)

lemma accountKeyTexts_example:
  assumes "list_all isString keys"
  shows "accountKeyTexts h (field (exampleRecord logs keys ixs) ''transaction'') = keys"
proof -
  have "map (accountKeyText h) keys = keys"
    using assms
    by (intro map_idI)
       (auto simp: list_all_iff isString_def accountKeyText_def accountKeyString_def
             split: jsval.splits)
  then show ?thesis
    by (simp add: accountKeyTexts_def exampleRecord_def field_def getProp_def elements_def)
qed

lemma isPumpAddress_examples:
  "isPumpAddress (JStr exampleMint)" "isPumpAddress (JStr otherMint)"
  "\<not> isPumpAddress (JStr ''11111111111111111111111111111111'')"
  by (simp_all add: isPumpAddress_def exampleMint_def otherMint_def endsWith_rev)

theorem mint_priority_order_witness:
  "map_option tokenMint (detectMigrationFromTransaction exampleHost exampleConfig
      (exampleRecord [''Program log: Instruction: Migrate'']
         (map JStr [''11111111111111111111111111111111'', otherMint, exampleMint])
         [indexInstruction]) ''SIG1'') = Some (JStr otherMint)"
proof -
  have w: "wfTransactionRecord (exampleRecord [''Program log: Instruction: Migrate'']
         (map JStr [''11111111111111111111111111111111'', otherMint, exampleMint])
         [indexInstruction])"
    by (rule exampleRecord_wf) (simp_all add: wfAccountKey_def example_instructions_wf)
  have c: "\<exists>d. detectMigrationFromTransaction exampleHost exampleConfig
      (exampleRecord [''Program log: Instruction: Migrate'']
         (map JStr [''11111111111111111111111111111111'', otherMint, exampleMint])
         [indexInstruction]) ''SIG1'' = Some d \<and> isMigration d"
    using detect_wf[OF w, of exampleHost exampleConfig "''SIG1''"]
    by (simp add: classifiedMigration_def exampleRecord_views isExclusionLine_def)
  show ?thesis
    using mint_priority_order[OF w, of exampleHost exampleConfig "''SIG1''"] c
      isPumpAddress_examples
    by (auto simp: accountKeyTexts_example isString_def)
qed

text \<open>
  Claim C2 as stated fails on the payload tier: for a decoded \<open>mintTo\<close> instruction with a
  token-mint field and no other candidate, the order as the specification words it yields
  that field, and the detector reports no token mint.
\<close>

theorem payload_token_mint_counterexample:
  "map_option tokenMint (detectMigrationFromTransaction exampleHost exampleConfig
      (exampleRecord [''Program log: Instruction: Migrate''] [] [mintToInstruction]) ''SIG1'')
     = Some JUndefined
   \<and> mintByPriority statedPayloadMint exampleHost exampleConfig [] [mintToInstruction]
     = JStr otherMint"
proof -
  have w: "wfTransactionRecord
     (exampleRecord [''Program log: Instruction: Migrate''] [] [mintToInstruction])"
    by (rule exampleRecord_wf) (simp_all add: example_instructions_wf)
  have k: "accountKeyTexts exampleHost (field (exampleRecord [''Program log: Instruction: Migrate''] []
              [mintToInstruction]) ''transaction'') = []"
    by (rule accountKeyTexts_example) simp
  have p: "payloadMint mintToInstruction = None"
    by (simp add: payloadMint_def mintToInstruction_def field_def getProp_def truthy_def Let_def)
  have s: "statedPayloadMint mintToInstruction = Some (JStr otherMint)"
    by (simp add: statedPayloadMint_def mintToInstruction_def field_def getProp_def truthy_def
          Let_def otherMint_def)
  have i: "indexedPumpAddress exampleHost [] mintToInstruction = None"
    by (simp add: indexedPumpAddress_def mintToInstruction_def field_def getProp_def elements_def
          List.map_filter_simps)
  have a: "map_option tokenMint (detectMigrationFromTransaction exampleHost exampleConfig
      (exampleRecord [''Program log: Instruction: Migrate''] [] [mintToInstruction]) ''SIG1'')
     = Some JUndefined"
    using detect_wf[OF w, of exampleHost exampleConfig "''SIG1''"]
    by (simp add: classifiedMigration_def exampleRecord_views isExclusionLine_def k
          mintByPriority_def p i)
  have b: "mintByPriority statedPayloadMint exampleHost exampleConfig [] [mintToInstruction]
     = JStr otherMint"
    by (simp add: mintByPriority_def s i)
  from a b show ?thesis by simp
qed

text \<open>
  Claim C6, as the code has it. On a missing record, a record without meta and a record
  that reports an execution error the detector returns a negative classification, whatever
  else the record holds. On every well-formed record, with instructions, account keys or
  log lines possibly missing, it returns without raising: a negative classification, or a
  migration with the signature.
\<close>

theorem detector_raises_only_on_malformed:
  "(\<not> truthy tx \<or> \<not> truthy (field tx ''meta'') \<or> truthy (field (field tx ''meta'') ''err'')
      \<longrightarrow> detectMigrationFromTransaction h cfg tx sig = Some notMigration)
   \<and> (wfTransactionRecord tx \<longrightarrow>
        (\<exists>d. detectMigrationFromTransaction h cfg tx sig = Some d
           \<and> (d = notMigration \<or> (isMigration d \<and> signature d = Some sig))))"
proof (intro conjI impI)
  assume a: "\<not> truthy tx \<or> \<not> truthy (field tx ''meta'') \<or> truthy (field (field tx ''meta'') ''err'')"
  show "detectMigrationFromTransaction h cfg tx sig = Some notMigration"
  proof (cases "truthy tx")
    case False
    then show ?thesis by (simp add: detectMigrationFromTransaction_def)
  next
    case True
    then have g1: "getProp tx ''meta'' = Some (field tx ''meta'')" by (rule getProp_truthy)
    show ?thesis
    proof (cases "truthy (field tx ''meta'')")
      case False
      then show ?thesis using True g1 by (simp add: detectMigrationFromTransaction_def)
    next
      case T2: True
      then have g2: "getProp (field tx ''meta'') ''err'' = Some (field (field tx ''meta'') ''err'')"
        by (rule getProp_truthy)
      from a True T2 have "truthy (field (field tx ''meta'') ''err'')" by simp
      then show ?thesis using True T2 g1 g2 by (simp add: detectMigrationFromTransaction_def)
    qed
  qed
next
  assume "wfTransactionRecord tx"
  from detect_wf[OF this, of h cfg sig]
  show "\<exists>d. detectMigrationFromTransaction h cfg tx sig = Some d
           \<and> (d = notMigration \<or> (isMigration d \<and> signature d = Some sig))"
    by auto
qed

theorem detector_raises_only_on_malformed_witness:
  "detectMigrationFromTransaction exampleHost exampleConfig JNull ''SIG1'' = Some notMigration
   \<and> detectMigrationFromTransaction exampleHost exampleConfig
        (JObj [(''transaction'', JObj [])]) ''SIG1'' = Some notMigration
   \<and> detectMigrationFromTransaction exampleHost exampleConfig
        (JObj [(''meta'', JObj [(''err'', JObj [(''InstructionError'', JArr [])])])]) ''SIG1''
       = Some notMigration
   \<and> detectMigrationFromTransaction exampleHost exampleConfig
        (JObj [(''meta'', JObj []), (''transaction'', JObj [(''message'', JObj [])])]) ''SIG1''
       = Some notMigration"
proof -
  have w: "wfTransactionRecord (JObj [(''meta'', JObj []), (''transaction'', JObj [(''message'', JObj [])])])"
    by (simp add: wfTransactionRecord_def wfMeta_def wfMessage_def wfArrayOf_def field_def
          getProp_def truthy_def)
  have n: "map_option isMigration (detectMigrationFromTransaction exampleHost exampleConfig
        (JObj [(''meta'', JObj []), (''transaction'', JObj [(''message'', JObj [])])]) ''SIG1'')
       = Some False"
    using detect_wf[OF w, of exampleHost exampleConfig "''SIG1''"]
    by (simp add: classifiedMigration_def logLines_def topInstructions_def strings_def elements_def
          field_def getProp_def notMigration_def)
  show ?thesis
    using detector_raises_only_on_malformed[of JNull exampleHost exampleConfig "''SIG1''"]
      detector_raises_only_on_malformed[of "JObj [(''transaction'', JObj [])]"
          exampleHost exampleConfig "''SIG1''"]
      detector_raises_only_on_malformed[of
          "JObj [(''meta'', JObj [(''err'', JObj [(''InstructionError'', JArr [])])])]"
          exampleHost exampleConfig "''SIG1''"]
      detector_raises_only_on_malformed[of
          "JObj [(''meta'', JObj []), (''transaction'', JObj [(''message'', JObj [])])]"
          exampleHost exampleConfig "''SIG1''"] w n
    by (auto simp: truthy_def field_def getProp_def)
qed

text \<open>
  Claim C6 as stated fails: on a record with meta and log lines and without \<open>transaction\<close>
  the detector raises.
\<close>

theorem detector_raises_counterexample:
  "detectMigrationFromTransaction exampleHost exampleConfig
     (JObj [(''meta'', JObj [(''err'', JNull),
                             (''logMessages'', JArr [JStr ''Program log: Instruction: Migrate''])])])
     ''SIG1'' = None"
  by (simp add: detectMigrationFromTransaction_def truthy_def getProp_def)

end
